theory Spec2Isabelle
  imports Complex_Main "HOL-Library.AList"
begin

section \<open>JavaScript containers and values\<close>

text \<open>
  A JavaScript \<^verbatim>\<open>Set\<close> of strings iterates in insertion order and holds each member
  once. It is modelled as a duplicate-free list: \<^verbatim>\<open>add\<close> appends a new member and
  leaves the list alone when the member is there, \<^verbatim>\<open>delete\<close> removes it.
\<close>

type_synonym 'a js_set = "'a list"

definition js_has :: "'a js_set \<Rightarrow> 'a \<Rightarrow> bool" where
  "js_has s x = (x \<in> set s)"

definition js_add :: "'a \<Rightarrow> 'a js_set \<Rightarrow> 'a js_set" where
  "js_add x s = (if x \<in> set s then s else s @ [x])"

definition js_delete :: "'a \<Rightarrow> 'a js_set \<Rightarrow> 'a js_set" where
  "js_delete x s = removeAll x s"

text \<open>
  An array-valued property that may be missing: \<^verbatim>\<open>xs && xs.length > 0\<close> is false for
  an absent property and for an empty array.
\<close>

definition has_items :: "'a list option \<Rightarrow> bool" where
  "has_items xs = (case xs of None \<Rightarrow> False | Some l \<Rightarrow> 0 < length l)"

definition items :: "'a list option \<Rightarrow> 'a list" where
  "items xs = (case xs of None \<Rightarrow> [] | Some l \<Rightarrow> l)"

text \<open>Truthiness of a string-valued property: absent and the empty string are falsy.\<close>

definition truthy_str :: "string option \<Rightarrow> bool" where
  "truthy_str s = (case s of None \<Rightarrow> False | Some v \<Rightarrow> v \<noteq> [])"

section \<open>JavaScript numbers\<close>

text \<open>
  A JavaScript number is an IEEE 754 double: not-a-number, an infinity, or a finite value,
  kept here as the rational it denotes. Every arithmetic result is rounded to the nearest
  double, ties to the even significand (53 bits, exponents from \<open>-1022\<close> to \<open>1023\<close>,
  subnormals below, overflow to infinity). The sign of zero is not kept; it shows only in
  a division by zero, which the modelled code does not perform.
\<close>

datatype js_number = NaN | PosInf | NegInf | Fin rat

text \<open>The number of binary digits of a positive integer.\<close>

function bitlen :: "int \<Rightarrow> nat" where
  "bitlen n = (if n \<le> 0 then 0 else Suc (bitlen (n div 2)))"
  by pat_completeness auto
termination
  by (relation "measure nat") auto

declare bitlen.simps [simp del]

definition pow2 :: "int \<Rightarrow> rat" where
  "pow2 k = (if 0 \<le> k then 2 ^ nat k else 1 / 2 ^ nat (- k))"

text \<open>For positive \<open>x\<close>, the exponent \<open>e\<close> with \<open>2^e \<le> x < 2^(e+1)\<close>.\<close>

definition ilog2 :: "rat \<Rightarrow> int" where
  "ilog2 x = (if 1 \<le> x then int (bitlen \<lfloor>x\<rfloor>) - 1
              else - int (bitlen (\<lceil>1 / x\<rceil> - 1)))"

definition round_half_even :: "rat \<Rightarrow> int" where
  "round_half_even m =
     (let f = \<lfloor>m\<rfloor>; d = m - of_int f
      in if d < 1 / 2 then f else if 1 / 2 < d then f + 1 else if even f then f else f + 1)"

text \<open>
  Rounding of an exact result to a double: the significand \<open>r\<close> is the value divided by
  the spacing \<open>q\<close> of doubles at its exponent, rounded to an integer.
\<close>

definition to_double :: "rat \<Rightarrow> js_number" where
  "to_double x =
     (if x = 0 then Fin 0
      else (let a = \<bar>x\<bar>;
                e = max (ilog2 a) (- 1022);
                q = pow2 (e - 52);
                r = round_half_even (a / q)
            in if 1024 \<le> e \<or> (e = 1023 \<and> r = 9007199254740992)
               then (if 0 < x then PosInf else NegInf)
               else Fin (if 0 < x then of_int r * q else - (of_int r * q))))"

text \<open>\<^verbatim>\<open>Math.abs\<close>, \<^verbatim>\<open>+\<close>, \<^verbatim>\<open>/\<close> and \<^verbatim>\<open>>=\<close> on numbers.\<close>

fun num_abs :: "js_number \<Rightarrow> js_number" where
  "num_abs NaN = NaN"
| "num_abs PosInf = PosInf"
| "num_abs NegInf = PosInf"
| "num_abs (Fin x) = Fin \<bar>x\<bar>"

fun num_add :: "js_number \<Rightarrow> js_number \<Rightarrow> js_number" where
  "num_add NaN b = NaN"
| "num_add a NaN = NaN"
| "num_add PosInf NegInf = NaN"
| "num_add NegInf PosInf = NaN"
| "num_add PosInf b = PosInf"
| "num_add a PosInf = PosInf"
| "num_add NegInf b = NegInf"
| "num_add a NegInf = NegInf"
| "num_add (Fin x) (Fin y) = to_double (x + y)"

fun num_div :: "js_number \<Rightarrow> js_number \<Rightarrow> js_number" where
  "num_div NaN b = NaN"
| "num_div a NaN = NaN"
| "num_div (Fin x) (Fin y) =
     (if y = 0 then (if x = 0 then NaN else if 0 < x then PosInf else NegInf)
      else to_double (x / y))"
| "num_div (Fin x) b = Fin 0"
| "num_div PosInf (Fin y) = (if y < 0 then NegInf else PosInf)"
| "num_div NegInf (Fin y) = (if y < 0 then PosInf else NegInf)"
| "num_div a b = NaN"

fun num_ge :: "js_number \<Rightarrow> js_number \<Rightarrow> bool" where
  "num_ge NaN b = False"
| "num_ge a NaN = False"
| "num_ge PosInf b = True"
| "num_ge a NegInf = True"
| "num_ge (Fin x) (Fin y) = (y \<le> x)"
| "num_ge a b = False"

section \<open>TransactionFilter (filters/transaction-filter.js)\<close>

text \<open>
  Amounts are JavaScript numbers; timestamps and durations (whole milliseconds, far
  below \<open>2^53\<close>) are integers. The transaction is the object built by
  \<^verbatim>\<open>WebSocketBackend.processTransactionData\<close>; every property the filter tests for
  presence is optional here.
\<close>

record token_transfer =
  tt_mint :: string
  tt_accountIndex :: nat
  tt_change :: js_number
  tt_decimals :: nat
  uiChange :: js_number

record balance_change =
  bc_accountIndex :: nat
  bc_account :: string
  change :: js_number
  preBalance :: js_number
  postBalance :: js_number

record instruction =
  programId :: string

record transaction =
  signature :: string
  slot :: nat
  timestamp :: "int option"
  fee :: js_number
  accounts :: "string list option"
  instructions :: "instruction list option"
  balanceChanges :: "balance_change list option"
  tokenTransfers :: "token_transfer list option"
  status :: string

record filter_options =
  enableFiltering :: bool
  minAmount :: js_number
  maxAge :: int

record transaction_filter =
  options :: filter_options
  blacklistAddresses :: "string js_set"
  whitelistPrograms :: "string js_set"

text \<open>\<^verbatim>\<open>passesAgeFilter\<close>: a missing or zero timestamp passes; \<open>now\<close> is \<^verbatim>\<open>Date.now()\<close>.\<close>

definition passesAgeFilter :: "transaction_filter \<Rightarrow> int \<Rightarrow> transaction \<Rightarrow> bool" where
  "passesAgeFilter f now tx =
     (case timestamp tx of
        None \<Rightarrow> True
      | Some ts \<Rightarrow> if ts = 0 then True else now - ts \<le> maxAge (options f))"

text \<open>
  The \<^verbatim>\<open>reduce\<close> of \<^verbatim>\<open>passesAmountFilter\<close>: the absolute balance changes added up in
  array order, starting from 0, each addition rounded.
\<close>

definition solChange :: "balance_change list \<Rightarrow> js_number" where
  "solChange cs = foldl (\<lambda>total c. num_add total (num_abs (change c))) (Fin 0) cs"

text \<open>
  \<^verbatim>\<open>passesAmountFilter\<close>: when there are token transfers the answer is decided by them
  alone; otherwise, when there are balance changes, by the sum of their absolute values
  converted from lamports to SOL; otherwise the transaction passes.
\<close>

definition passesAmountFilter :: "transaction_filter \<Rightarrow> transaction \<Rightarrow> bool" where
  "passesAmountFilter f tx =
     (if has_items (tokenTransfers tx) then
        list_ex (\<lambda>transfer. num_ge (num_abs (uiChange transfer)) (minAmount (options f)))
          (items (tokenTransfers tx))
      else if has_items (balanceChanges tx) then
        num_ge (num_div (solChange (items (balanceChanges tx))) (Fin 1000000000))
          (minAmount (options f))
      else True)"

definition passesProgramFilter :: "transaction_filter \<Rightarrow> transaction \<Rightarrow> bool" where
  "passesProgramFilter f tx =
     (if \<not> has_items (instructions tx) then True
      else list_ex (\<lambda>i. js_has (whitelistPrograms f) (programId i)) (items (instructions tx)))"

definition passesAddressFilter :: "transaction_filter \<Rightarrow> transaction \<Rightarrow> bool" where
  "passesAddressFilter f tx =
     (if \<not> has_items (accounts tx) then True
      else (let nonBlacklistedAccounts =
                  filter (\<lambda>account. \<not> js_has (blacklistAddresses f) account) (items (accounts tx))
            in 0 < length nonBlacklistedAccounts))"

definition passesTypeFilter :: "transaction \<Rightarrow> bool" where
  "passesTypeFilter tx =
     (if status tx \<noteq> ''success'' then False
      else has_items (tokenTransfers tx) \<or> has_items (balanceChanges tx))"

definition shouldInclude :: "transaction_filter \<Rightarrow> int \<Rightarrow> transaction \<Rightarrow> bool" where
  "shouldInclude f now tx =
     (if \<not> enableFiltering (options f) then True
      else if \<not> passesAgeFilter f now tx then False
      else if \<not> passesAmountFilter f tx then False
      else if \<not> passesProgramFilter f tx then False
      else if \<not> passesAddressFilter f tx then False
      else if \<not> passesTypeFilter tx then False
      else True)"

text \<open>
  The amount predicate as the specification words it: some asset delta reaches the
  threshold, or some balance delta (scaled to display units) reaches it, or the
  transaction has neither kind of delta.
\<close>

definition spec_passesAmount :: "transaction_filter \<Rightarrow> transaction \<Rightarrow> bool" where
  "spec_passesAmount f tx =
     (list_ex (\<lambda>t. num_ge (num_abs (uiChange t)) (minAmount (options f)))
        (items (tokenTransfers tx))
      \<or> list_ex (\<lambda>c. num_ge (num_div (num_abs (change c)) (Fin 1000000000))
                         (minAmount (options f)))
           (items (balanceChanges tx))
      \<or> (\<not> has_items (tokenTransfers tx) \<and> \<not> has_items (balanceChanges tx)))"

text \<open>The filter as the constructor builds it, with the given options.\<close>

definition default_filter :: "bool \<Rightarrow> js_number \<Rightarrow> int \<Rightarrow> transaction_filter" where
  "default_filter en amt age =
     \<lparr> options = \<lparr> enableFiltering = en, minAmount = amt, maxAge = age \<rparr>,
       blacklistAddresses =
         [''11111111111111111111111111111112'',
          ''TokenkegQfeZyiNwAJbNbGKPFXCWuBvf9Ss623VQ5DA'',
          ''ATokenGPvbdGVxr1b2hvZbsiqW5xWH25efTNsLJA8knL''],
       whitelistPrograms =
         [''9WzDXwBbmkg8ZTbNMqUxvQRAyrZzDsGYdLVL9zYtAWWM'',
          ''JUP4Fb2cqiRUcaTHdrPC8h2gNsA2ETXiPDD33WcGuJB'',
          ''whirLbMiicVdio4qvUfM5KAg6Ct8VwpYzGff3uctyCc''] \<rparr>"

text \<open>Sample transactions used to evaluate the filter.\<close>

definition sample_transfer :: "rat \<Rightarrow> token_transfer" where
  "sample_transfer u =
     \<lparr> tt_mint = ''So11111111111111111111111111111111111111112'', tt_accountIndex = 1,
       tt_change = Fin (u * 1000000), tt_decimals = 6, uiChange = Fin u \<rparr>"

definition sample_balance :: "rat \<Rightarrow> balance_change" where
  "sample_balance c =
     \<lparr> bc_accountIndex = 0, bc_account = ''9xQeWvG816bUx9EPjHmaT23yvVM2ZWbrrpZb9PusVFin'',
       change = Fin c, preBalance = Fin 0, postBalance = Fin c \<rparr>"

definition sample_tx ::
  "string \<Rightarrow> token_transfer list \<Rightarrow> balance_change list \<Rightarrow> transaction" where
  "sample_tx st tts bcs =
     \<lparr> signature = ''sig'', slot = 1, timestamp = Some 1000, fee = Fin 5000,
       accounts = Some [''9xQeWvG816bUx9EPjHmaT23yvVM2ZWbrrpZb9PusVFin''],
       instructions = Some [],
       balanceChanges = Some bcs, tokenTransfers = Some tts, status = st \<rparr>"

section \<open>WebSocketBackend (services/websocket-backend.js)\<close>

text \<open>
  The backend is a record of the fields of the class, passed in and returned updated.
  Counters are naturals, times and delays (milliseconds) integers. What the backend does
  to the outside is appended to \<open>effects\<close> in program order: events emitted to its
  listeners, messages sent on the socket and one-shot timeouts armed with
  \<^verbatim>\<open>setTimeout\<close>. Interval timers are kept in their handle fields (\<open>Some interval\<close>
  while armed). Log lines are not modelled. \<^verbatim>\<open>Date.now()\<close> is a parameter.
  \<open>resubscribeLoops\<close> holds the runs of \<^verbatim>\<open>resubscribeAll\<close> that are suspended at an
  \<^verbatim>\<open>await\<close>, oldest first, each with the members of its snapshot still to be subscribed.
  The handling of socket error events is not modelled.
\<close>

datatype ready_state = CONNECTING | OPEN | CLOSING | CLOSED

datatype backend_event =
    Connected
  | Disconnected int
  | MaxReconnectAttemptsReached

datatype ws_message = TransactionSubscribe string

datatype timeout_kind = ReconnectCallback | ConnectTimeout | FailureReset nat

datatype effect =
    Emit backend_event
  | Send ws_message
  | SetTimeout timeout_kind int

record backend_options =
  apiKeys :: "string list"
  reconnectAttempts :: nat
  reconnectDelay :: int
  maxReconnectDelay :: int
  heartbeatInterval :: int

record backend =
  ws_options :: backend_options
  websocket :: "ready_state option"
  isConnected :: bool
  isConnecting :: bool
  reconnectCount :: nat
  currentApiKeyIndex :: nat
  subscriptions :: "string js_set"
  pendingSubscriptions :: "string js_set"
  lastApiKeyUsage :: "nat \<rightharpoonup> int"
  apiKeyFailures :: "nat \<rightharpoonup> nat"
  reconnectTimer :: "int option"
  heartbeatTimer :: "int option"
  keyRotationTimer :: "int option"
  resubscribeLoops :: "string list list"
  effects :: "effect list"

text \<open>The constructor: nothing connected, no subscriptions, the rotation interval armed.\<close>

definition new_backend :: "backend_options \<Rightarrow> backend" where
  "new_backend opts =
     \<lparr> ws_options = opts, websocket = None, isConnected = False, isConnecting = False,
       reconnectCount = 0, currentApiKeyIndex = 0, subscriptions = [],
       pendingSubscriptions = [], lastApiKeyUsage = Map.empty, apiKeyFailures = Map.empty,
       reconnectTimer = None, heartbeatTimer = None, keyRotationTimer = Some 300000,
       resubscribeLoops = [], effects = [] \<rparr>"

subsection \<open>API key rotation\<close>

text \<open>\<^verbatim>\<open>this.lastApiKeyUsage.get(i) || 0\<close> and \<^verbatim>\<open>this.apiKeyFailures.get(i) || 0\<close>.\<close>

definition lastUsageOf :: "backend \<Rightarrow> nat \<Rightarrow> int" where
  "lastUsageOf s i = (case lastApiKeyUsage s i of None \<Rightarrow> 0 | Some u \<Rightarrow> u)"

definition failuresOf :: "backend \<Rightarrow> nat \<Rightarrow> nat" where
  "failuresOf s i = (case apiKeyFailures s i of None \<Rightarrow> 0 | Some n \<Rightarrow> n)"

text \<open>The test that makes the loop skip a key: too many failures and used recently.\<close>

definition inCooldown :: "backend \<Rightarrow> int \<Rightarrow> nat \<Rightarrow> bool" where
  "inCooldown s currentTime i =
     (3 < failuresOf s i \<and> currentTime - lastUsageOf s i < 60000)"

text \<open>
  A key the loop can take over the initial choice: not skipped, and last used strictly
  before the current time (the loop starts from \<open>oldestUsage = currentTime\<close> and
  compares with \<open><\<close>).
\<close>

definition eligible :: "backend \<Rightarrow> int \<Rightarrow> nat \<Rightarrow> bool" where
  "eligible s currentTime i = (\<not> inCooldown s currentTime i \<and> lastUsageOf s i < currentTime)"

text \<open>
  The loop of \<^verbatim>\<open>getNextApiKey\<close> over the key indices, carrying
  \<open>(bestKeyIndex, oldestUsage)\<close>.
\<close>

fun scanKeys :: "backend \<Rightarrow> int \<Rightarrow> nat list \<Rightarrow> nat \<times> int \<Rightarrow> nat \<times> int" where
  "scanKeys s currentTime [] acc = acc"
| "scanKeys s currentTime (i # rest) (bestKeyIndex, oldestUsage) =
     (if inCooldown s currentTime i then
        scanKeys s currentTime rest (bestKeyIndex, oldestUsage)
      else if lastUsageOf s i < oldestUsage then
        scanKeys s currentTime rest (i, lastUsageOf s i)
      else scanKeys s currentTime rest (bestKeyIndex, oldestUsage))"

definition bestKey :: "backend \<Rightarrow> int \<Rightarrow> nat" where
  "bestKey s currentTime =
     fst (scanKeys s currentTime [0..<length (apiKeys (ws_options s))] (0, currentTime))"

definition getNextApiKey :: "backend \<Rightarrow> int \<Rightarrow> string option \<times> backend" where
  "getNextApiKey s currentTime =
     (if length (apiKeys (ws_options s)) = 0 then (None, s)
      else (let bestKeyIndex = bestKey s currentTime
            in (Some (apiKeys (ws_options s) ! bestKeyIndex),
                s\<lparr> currentApiKeyIndex := bestKeyIndex,
                   lastApiKeyUsage := (lastApiKeyUsage s)(bestKeyIndex \<mapsto> currentTime) \<rparr>)))"

definition markApiKeyFailed :: "backend \<Rightarrow> nat \<Rightarrow> backend" where
  "markApiKeyFailed s keyIndex =
     s\<lparr> apiKeyFailures := (apiKeyFailures s)(keyIndex \<mapsto> failuresOf s keyIndex + 1),
        effects := effects s @ [SetTimeout (FailureReset keyIndex) 600000] \<rparr>"

text \<open>The callback armed by \<^verbatim>\<open>markApiKeyFailed\<close>, run ten minutes later.\<close>

definition failureResetCallback :: "backend \<Rightarrow> nat \<Rightarrow> backend" where
  "failureResetCallback s keyIndex = s\<lparr> apiKeyFailures := (apiKeyFailures s)(keyIndex \<mapsto> 0) \<rparr>"

subsection \<open>Subscriptions\<close>

definition sendMessage :: "backend \<Rightarrow> ws_message \<Rightarrow> backend" where
  "sendMessage s m =
     (if websocket s = Some OPEN then s\<lparr> effects := effects s @ [Send m] \<rparr> else s)"

definition subscribeToWallet :: "backend \<Rightarrow> string \<Rightarrow> bool \<times> backend" where
  "subscribeToWallet s walletAddress =
     (if \<not> isConnected s then
        (False, s\<lparr> pendingSubscriptions := js_add walletAddress (pendingSubscriptions s) \<rparr>)
      else
        (let s1 = sendMessage s (TransactionSubscribe walletAddress);
             s2 = s1\<lparr> subscriptions := js_add walletAddress (subscriptions s1) \<rparr>
         in (True, s2\<lparr> pendingSubscriptions := js_delete walletAddress (pendingSubscriptions s2) \<rparr>)))"

definition unsubscribeFromWallet :: "backend \<Rightarrow> string \<Rightarrow> bool \<times> backend" where
  "unsubscribeFromWallet s walletAddress =
     (let s1 = s\<lparr> subscriptions := js_delete walletAddress (subscriptions s) \<rparr>
      in (True, s1\<lparr> pendingSubscriptions := js_delete walletAddress (pendingSubscriptions s1) \<rparr>))"

text \<open>\<^verbatim>\<open>new Set([...this.subscriptions, ...this.pendingSubscriptions])\<close>.\<close>

definition allSubscriptions :: "backend \<Rightarrow> string js_set" where
  "allSubscriptions s =
     foldl (\<lambda>acc a. js_add a acc) [] (subscriptions s @ pendingSubscriptions s)"

text \<open>
  \<^verbatim>\<open>resubscribeAll\<close> is an \<^verbatim>\<open>async\<close> function whose loop awaits
  \<^verbatim>\<open>subscribeToWallet\<close> for each member of the snapshot, and \<^verbatim>\<open>handleOpen\<close> calls it
  without awaiting it. The call runs up to the first \<^verbatim>\<open>await\<close>: it takes the snapshot and,
  when the snapshot is not empty, subscribes its first member (\<^verbatim>\<open>subscribeToWallet\<close> has
  no \<^verbatim>\<open>await\<close> and runs through) and suspends with the other members still to come.
  With an empty snapshot it ends at once.
\<close>

definition resubscribeAll :: "backend \<Rightarrow> backend" where
  "resubscribeAll s =
     (case allSubscriptions s of
        [] \<Rightarrow> s
      | walletAddress # rest \<Rightarrow>
          (let s1 = snd (subscribeToWallet s walletAddress)
           in s1\<lparr> resubscribeLoops := resubscribeLoops s1 @ [rest] \<rparr>))"

text \<open>
  The continuation of the suspended run that has waited longest: it subscribes the next
  member of its snapshot and suspends again, behind the other suspended runs, or it ends
  when no member is left. Whatever else is ready to run, such as a \<^verbatim>\<open>removeWallet\<close> of
  the caller, can run between two continuations.
\<close>

definition resubscribeStep :: "backend \<Rightarrow> backend" where
  "resubscribeStep s =
     (case resubscribeLoops s of
        [] \<Rightarrow> s
      | [] # others \<Rightarrow> s\<lparr> resubscribeLoops := others \<rparr>
      | (walletAddress # rest) # others \<Rightarrow>
          (let s1 = snd (subscribeToWallet s walletAddress)
           in s1\<lparr> resubscribeLoops := others @ [rest] \<rparr>))"

subsection \<open>Connection life cycle\<close>

definition setupHeartbeat :: "backend \<Rightarrow> backend" where
  "setupHeartbeat s = s\<lparr> heartbeatTimer := Some (heartbeatInterval (ws_options s)) \<rparr>"

definition handleOpen :: "backend \<Rightarrow> backend" where
  "handleOpen s =
     (let s1 = s\<lparr> isConnected := True, isConnecting := False, reconnectCount := 0 \<rparr>;
          s2 = s1\<lparr> effects := effects s1 @ [Emit Connected] \<rparr>
      in resubscribeAll (setupHeartbeat s2))"

definition scheduleReconnect :: "backend \<Rightarrow> backend" where
  "scheduleReconnect s =
     (if reconnectAttempts (ws_options s) \<le> reconnectCount s then
        s\<lparr> effects := effects s @ [Emit MaxReconnectAttemptsReached] \<rparr>
      else
        (let delay = min (reconnectDelay (ws_options s) * 2 ^ reconnectCount s)
                         (maxReconnectDelay (ws_options s))
         in s\<lparr> reconnectTimer := Some delay,
               effects := effects s @ [SetTimeout ReconnectCallback delay] \<rparr>))"

definition handleClose :: "backend \<Rightarrow> int \<Rightarrow> backend" where
  "handleClose s code =
     (let s1 = s\<lparr> isConnected := False, isConnecting := False, heartbeatTimer := None \<rparr>;
          s2 = s1\<lparr> effects := effects s1 @ [Emit (Disconnected code)] \<rparr>
      in if code \<noteq> 1000 then scheduleReconnect s2 else s2)"

text \<open>
  \<^verbatim>\<open>connect\<close> up to the point where it waits for the handshake: it returns at once when
  a connection exists or is being made, throws when no API key is available (\<^verbatim>\<open>null\<close> or
  the empty string), and otherwise creates the socket and arms the connection timeout.
\<close>

datatype connect_result = AlreadyConnected | NoApiKeys | Opening

definition connect :: "backend \<Rightarrow> int \<Rightarrow> connect_result \<times> backend" where
  "connect s now =
     (if isConnected s \<or> isConnecting s then (AlreadyConnected, s)
      else (case getNextApiKey s now of
              (apiKey, s1) \<Rightarrow>
                if \<not> truthy_str apiKey then (NoApiKeys, s1)
                else (Opening,
                      s1\<lparr> isConnecting := True, websocket := Some CONNECTING,
                          effects := effects s1 @ [SetTimeout ConnectTimeout 10000] \<rparr>)))"

text \<open>
  The callback armed by \<^verbatim>\<open>scheduleReconnect\<close>: it counts the attempt, connects, and
  schedules the next retry when \<^verbatim>\<open>connect\<close> throws at once for want of an API key. A
  handshake that fails later is not modelled.
\<close>

definition reconnectCallback :: "backend \<Rightarrow> int \<Rightarrow> backend" where
  "reconnectCallback s now =
     (let s1 = s\<lparr> reconnectCount := reconnectCount s + 1 \<rparr>
      in (case connect s1 now of
            (NoApiKeys, s2) \<Rightarrow> scheduleReconnect s2
          | (_, s2) \<Rightarrow> s2))"

definition disconnect :: "backend \<Rightarrow> backend" where
  "disconnect s =
     s\<lparr> reconnectTimer := None, heartbeatTimer := None, keyRotationTimer := None,
        websocket := None, isConnected := False, isConnecting := False,
        subscriptions := [], pendingSubscriptions := [] \<rparr>"

section \<open>WalletTracker (wallet-tracker.js)\<close>

record tracker_options =
  maxTransactions :: int

record 'tx tracker =
  tr_options :: tracker_options
  websocketBackend :: backend
  trackedWallets :: "string js_set"
  transactions :: "'tx list"
  tr_isConnected :: bool

definition new_tracker :: "tracker_options \<Rightarrow> backend_options \<Rightarrow> 'tx tracker" where
  "new_tracker topts bopts =
     \<lparr> tr_options = topts, websocketBackend = new_backend bopts, trackedWallets = [],
       transactions = [], tr_isConnected = False \<rparr>"

text \<open>
  \<^verbatim>\<open>validateWalletAddress\<close>: a non-empty string matching
  \<^verbatim>\<open>/^[1-9A-HJ-NP-Za-km-z]{32,44}$/\<close>.
\<close>

definition base58_chars :: "char list" where
  "base58_chars = ''123456789ABCDEFGHJKLMNPQRSTUVWXYZabcdefghijkmnopqrstuvwxyz''"

definition validateWalletAddress :: "string \<Rightarrow> bool" where
  "validateWalletAddress address =
     (if address = [] then False
      else 32 \<le> length address \<and> length address \<le> 44
           \<and> list_all (\<lambda>c. c \<in> set base58_chars) address)"

definition addWallet :: "'tx tracker \<Rightarrow> string \<Rightarrow> bool \<times> 'tx tracker" where
  "addWallet t walletAddress =
     (if \<not> validateWalletAddress walletAddress then (False, t)
      else if js_has (trackedWallets t) walletAddress then (True, t)
      else (let t1 = t\<lparr> trackedWallets := js_add walletAddress (trackedWallets t) \<rparr>
            in (True, t1\<lparr> websocketBackend :=
                            snd (subscribeToWallet (websocketBackend t1) walletAddress) \<rparr>)))"

definition removeWallet :: "'tx tracker \<Rightarrow> string \<Rightarrow> bool \<times> 'tx tracker" where
  "removeWallet t walletAddress =
     (if \<not> js_has (trackedWallets t) walletAddress then (True, t)
      else (let t1 = t\<lparr> trackedWallets := js_delete walletAddress (trackedWallets t) \<rparr>
            in (True, t1\<lparr> websocketBackend :=
                            snd (unsubscribeFromWallet (websocketBackend t1) walletAddress) \<rparr>)))"

text \<open>
  \<^verbatim>\<open>Array.prototype.slice(0, end)\<close>: a negative \<open>end\<close> counts from the end of the
  array, a large one is cut to the length.
\<close>

definition js_slice0 :: "'a list \<Rightarrow> int \<Rightarrow> 'a list" where
  "js_slice0 xs e =
     (if e < 0 then take (nat (max (int (length xs) + e) 0)) xs else take (nat e) xs)"

definition addTransaction :: "'tx tracker \<Rightarrow> 'tx \<Rightarrow> 'tx tracker" where
  "addTransaction t tx =
     (let t1 = t\<lparr> transactions := tx # transactions t \<rparr>
      in if maxTransactions (tr_options t1) < int (length (transactions t1))
         then t1\<lparr> transactions := js_slice0 (transactions t1) (maxTransactions (tr_options t1)) \<rparr>
         else t1)"

definition tracker_stop :: "'tx tracker \<Rightarrow> 'tx tracker" where
  "tracker_stop t = t\<lparr> websocketBackend := disconnect (websocketBackend t), trackedWallets := [] \<rparr>"

text \<open>
  What can happen to a tracker: calls of its owner, events of the socket and of the
  timer the backend armed, and the continuation of a suspended \<^verbatim>\<open>resubscribeAll\<close>
  run. \<^verbatim>\<open>addWallet\<close> and \<^verbatim>\<open>removeWallet\<close> do all their work before their first
  \<^verbatim>\<open>await\<close>, so each is one step. The socket can report its opening only while it is connecting,
  and its closing only while it exists and is not closed; the listeners the tracker
  registered on the backend keep its own \<open>isConnected\<close> flag.
\<close>

datatype tracker_event =
    AddWallet string
  | RemoveWallet string
  | Start int
  | SocketOpen
  | SocketClose int
  | ReconnectTimerFires int
  | ResubscribeContinues
  | Stop

definition socketOpens :: "backend \<Rightarrow> backend" where
  "socketOpens s = handleOpen (s\<lparr> websocket := Some OPEN \<rparr>)"

definition socketCloses :: "backend \<Rightarrow> int \<Rightarrow> backend" where
  "socketCloses s code = handleClose (s\<lparr> websocket := Some CLOSED \<rparr>) code"

fun tracker_step :: "'tx tracker \<Rightarrow> tracker_event \<Rightarrow> 'tx tracker" where
  "tracker_step t (AddWallet a) = snd (addWallet t a)"
| "tracker_step t (RemoveWallet a) = snd (removeWallet t a)"
| "tracker_step t (Start now) =
     t\<lparr> websocketBackend := snd (connect (websocketBackend t) now) \<rparr>"
| "tracker_step t SocketOpen =
     (if websocket (websocketBackend t) = Some CONNECTING
      then t\<lparr> websocketBackend := socketOpens (websocketBackend t), tr_isConnected := True \<rparr>
      else t)"
| "tracker_step t (SocketClose code) =
     (if websocket (websocketBackend t) \<in> {Some CONNECTING, Some OPEN, Some CLOSING}
      then t\<lparr> websocketBackend := socketCloses (websocketBackend t) code,
              tr_isConnected := False \<rparr>
      else t)"
| "tracker_step t (ReconnectTimerFires now) =
     t\<lparr> websocketBackend := reconnectCallback (websocketBackend t) now \<rparr>"
| "tracker_step t ResubscribeContinues =
     t\<lparr> websocketBackend := resubscribeStep (websocketBackend t) \<rparr>"
| "tracker_step t Stop = tracker_stop t"

definition tracker_run :: "'tx tracker \<Rightarrow> tracker_event list \<Rightarrow> 'tx tracker" where
  "tracker_run t evs = foldl tracker_step t evs"

text \<open>The wallet addresses of the subscription messages in a trace, in order.\<close>

fun sentAddresses :: "effect list \<Rightarrow> string list" where
  "sentAddresses [] = []"
| "sentAddresses (Send (TransactionSubscribe a) # es) = a # sentAddresses es"
| "sentAddresses (_ # es) = sentAddresses es"

section \<open>CacheManager (utils/cache-manager.js)\<close>

text \<open>
  The two \<^verbatim>\<open>Map\<close>s of the cache manager iterate in insertion order, which
  \<^verbatim>\<open>evictOldest\<close> depends on; they are association lists with one pair per key.
  \<^verbatim>\<open>Map.set\<close> is \<open>AList.update\<close> (replace in place, or append), \<^verbatim>\<open>Map.delete\<close> is
  \<open>AList.delete\<close>, \<^verbatim>\<open>Map.get\<close> is \<open>map_of\<close>. All readings of the clock inside one call are
  the one parameter \<open>now\<close>.
\<close>

record cm_options =
  defaultTTL :: int
  maxSize :: int
  cleanupInterval :: int

record 'a cm_entry =
  cm_data :: 'a
  expiresAt :: int
  createdAt :: int

record 'a cache_manager =
  cm_opts :: cm_options
  cm_cache :: "(string \<times> 'a cm_entry) list"
  accessTimes :: "(string \<times> int) list"

definition new_cache_manager :: "cm_options \<Rightarrow> 'a cache_manager" where
  "new_cache_manager opts = \<lparr> cm_opts = opts, cm_cache = [], accessTimes = [] \<rparr>"

definition cm_delete :: "'a cache_manager \<Rightarrow> string \<Rightarrow> bool \<times> 'a cache_manager" where
  "cm_delete s key =
     (let s1 = s\<lparr> accessTimes := AList.delete key (accessTimes s) \<rparr>
      in (map_of (cm_cache s1) key \<noteq> None, s1\<lparr> cm_cache := AList.delete key (cm_cache s1) \<rparr>))"

text \<open>The loop of \<^verbatim>\<open>evictOldest\<close>, carrying \<open>(oldestKey, oldestTime)\<close>.\<close>

fun oldestAccess :: "(string \<times> int) list \<Rightarrow> string option \<times> int \<Rightarrow> string option \<times> int" where
  "oldestAccess [] acc = acc"
| "oldestAccess ((key, accessTime) # rest) (oldestKey, oldestTime) =
     (if accessTime < oldestTime then oldestAccess rest (Some key, accessTime)
      else oldestAccess rest (oldestKey, oldestTime))"

definition evictOldest :: "'a cache_manager \<Rightarrow> int \<Rightarrow> 'a cache_manager" where
  "evictOldest s now =
     (if length (accessTimes s) = 0 then s
      else (let oldestKey = fst (oldestAccess (accessTimes s) (None, now))
            in if truthy_str oldestKey then snd (cm_delete s (the oldestKey)) else s))"

definition cm_set :: "'a cache_manager \<Rightarrow> string \<Rightarrow> 'a \<Rightarrow> int option \<Rightarrow> int \<Rightarrow> 'a cache_manager" where
  "cm_set s key d ttl now =
     (let s1 = (if maxSize (cm_opts s) \<le> int (length (cm_cache s)) then evictOldest s now else s);
          expires = now + (case ttl of None \<Rightarrow> defaultTTL (cm_opts s1) | Some t \<Rightarrow> t);
          s2 = s1\<lparr> cm_cache := AList.update key
                        \<lparr> cm_data = d, expiresAt = expires, createdAt = now \<rparr> (cm_cache s1) \<rparr>
      in s2\<lparr> accessTimes := AList.update key now (accessTimes s2) \<rparr>)"

definition cm_get :: "'a cache_manager \<Rightarrow> string \<Rightarrow> int \<Rightarrow> 'a option \<times> 'a cache_manager" where
  "cm_get s key now =
     (case map_of (cm_cache s) key of
        None \<Rightarrow> (None, s)
      | Some entry \<Rightarrow>
          if expiresAt entry < now then (None, snd (cm_delete s key))
          else (Some (cm_data entry), s\<lparr> accessTimes := AList.update key now (accessTimes s) \<rparr>))"

section \<open>TokenDataService (services/token-data-service.js)\<close>

text \<open>The token object of the upstream API; every property may be missing.\<close>

record raw_token =
  raw_address :: "string option"
  raw_symbol :: "string option"
  raw_name :: "string option"
  raw_decimals :: "nat option"
  logo_uri :: "string option"
  raw_price :: "rat option"
  price_change_24h :: "rat option"
  volume_24h :: "rat option"
  market_cap :: "rat option"
  total_supply :: "rat option"
  circulating_supply :: "rat option"
  raw_liquidity :: "rat option"
  raw_website :: "string option"
  raw_twitter :: "string option"
  raw_telegram :: "string option"
  raw_discord :: "string option"

record token_extensions =
  website :: "string option"
  twitter :: "string option"
  telegram :: "string option"
  discord :: "string option"

record token_data =
  address :: "string option"
  symbol :: string
  name :: string
  decimals :: nat
  logoURI :: "string option"
  price :: rat
  priceUsd :: "rat option"
  priceChange24h :: rat
  volume24h :: rat
  marketCap :: rat
  td_supply :: rat
  circulatingSupply :: rat
  liquidity :: rat
  lastUpdated :: int
  extensions :: token_extensions

text \<open>The operator \<^verbatim>\<open>||\<close> with a default, on numbers and on strings.\<close>

definition or_num :: "('a::zero) option \<Rightarrow> 'a \<Rightarrow> 'a" where
  "or_num v d = (case v of None \<Rightarrow> d | Some x \<Rightarrow> if x = 0 then d else x)"

definition or_str :: "string option \<Rightarrow> string \<Rightarrow> string" where
  "or_str v d = (case v of None \<Rightarrow> d | Some x \<Rightarrow> if x = [] then d else x)"

definition or_null :: "string option \<Rightarrow> string option" where
  "or_null v = (if truthy_str v then v else None)"

definition processTokenData :: "raw_token \<Rightarrow> int \<Rightarrow> token_data" where
  "processTokenData rawData now =
     \<lparr> address = raw_address rawData,
       symbol = or_str (raw_symbol rawData) ''UNKNOWN'',
       name = or_str (raw_name rawData) ''Unknown Token'',
       decimals = or_num (raw_decimals rawData) 9,
       logoURI = or_null (logo_uri rawData),
       price = or_num (raw_price rawData) 0,
       priceUsd = Some (or_num (raw_price rawData) 0),
       priceChange24h = or_num (price_change_24h rawData) 0,
       volume24h = or_num (volume_24h rawData) 0,
       marketCap = or_num (market_cap rawData) 0,
       td_supply = or_num (total_supply rawData) 0,
       circulatingSupply = or_num (circulating_supply rawData) 0,
       liquidity = or_num (raw_liquidity rawData) 0,
       lastUpdated = now,
       extensions = \<lparr> website = or_null (raw_website rawData),
                      twitter = or_null (raw_twitter rawData),
                      telegram = or_null (raw_telegram rawData),
                      discord = or_null (raw_discord rawData) \<rparr> \<rparr>"

record tds_options =
  cacheTimeout :: int
  maxRetries :: nat
  retryDelay :: int

record token_entry =
  te_data :: token_data
  te_timestamp :: int

record price_entry =
  pe_price :: rat
  pe_timestamp :: int

record logo_entry =
  le_logoURI :: string
  le_timestamp :: int

text \<open>
  The service: its options, the three cache tiers and the table of requests in flight,
  which maps a mint to the promise of its fetch (promises are numbered as they are
  created). \<open>fetchLog\<close> records every invocation of \<^verbatim>\<open>fetchTokenData\<close> made through
  \<^verbatim>\<open>getTokenData\<close>.
\<close>

record tds =
  td_options :: tds_options
  cache :: "string \<rightharpoonup> token_entry"
  priceCache :: "string \<rightharpoonup> price_entry"
  logoCache :: "string \<rightharpoonup> logo_entry"
  pendingRequests :: "string \<rightharpoonup> nat"
  nextPromise :: nat
  fetchLog :: "string list"

definition new_tds :: "tds_options \<Rightarrow> tds" where
  "new_tds opts =
     \<lparr> td_options = opts, cache = Map.empty, priceCache = Map.empty, logoCache = Map.empty,
       pendingRequests = Map.empty, nextPromise = 0, fetchLog = [] \<rparr>"

subsection \<open>Cache tiers\<close>

definition getCachedToken :: "tds \<Rightarrow> string \<Rightarrow> int \<Rightarrow> token_data option \<times> tds" where
  "getCachedToken s tokenMint now =
     (case cache s tokenMint of
        None \<Rightarrow> (None, s)
      | Some cached \<Rightarrow>
          if cacheTimeout (td_options s) < now - te_timestamp cached
          then (None, s\<lparr> cache := (cache s)(tokenMint := None) \<rparr>)
          else (Some (te_data cached), s))"

definition getCachedPrice :: "tds \<Rightarrow> string \<Rightarrow> int \<Rightarrow> rat option \<times> tds" where
  "getCachedPrice s tokenMint now =
     (case priceCache s tokenMint of
        None \<Rightarrow> (None, s)
      | Some cached \<Rightarrow>
          if 60000 < now - pe_timestamp cached
          then (None, s\<lparr> priceCache := (priceCache s)(tokenMint := None) \<rparr>)
          else (Some (pe_price cached), s))"

definition getCachedLogo :: "tds \<Rightarrow> string \<Rightarrow> int \<Rightarrow> string option \<times> tds" where
  "getCachedLogo s tokenMint now =
     (case logoCache s tokenMint of
        None \<Rightarrow> (None, s)
      | Some cached \<Rightarrow>
          if 3600000 < now - le_timestamp cached
          then (None, s\<lparr> logoCache := (logoCache s)(tokenMint := None) \<rparr>)
          else (Some (le_logoURI cached), s))"

text \<open>\<^verbatim>\<open>cacheTokenData\<close>; the argument \<open>None\<close> is a falsy \<^verbatim>\<open>data\<close>.\<close>

definition cacheTokenData :: "tds \<Rightarrow> string \<Rightarrow> token_data option \<Rightarrow> int \<Rightarrow> tds" where
  "cacheTokenData s tokenMint d now =
     (case d of
        None \<Rightarrow> s
      | Some dat \<Rightarrow>
          (let s1 = s\<lparr> cache := (cache s)(tokenMint \<mapsto> \<lparr> te_data = dat, te_timestamp = now \<rparr>) \<rparr>;
               s2 = (case priceUsd dat of
                       None \<Rightarrow> s1
                     | Some p \<Rightarrow> s1\<lparr> priceCache := (priceCache s1)
                                     (tokenMint \<mapsto> \<lparr> pe_price = p, pe_timestamp = now \<rparr>) \<rparr>)
           in if truthy_str (logoURI dat)
              then s2\<lparr> logoCache := (logoCache s2)
                         (tokenMint \<mapsto> \<lparr> le_logoURI = the (logoURI dat), le_timestamp = now \<rparr>) \<rparr>
              else s2))"

definition cacheTokenLogo :: "tds \<Rightarrow> string \<Rightarrow> string \<Rightarrow> int \<Rightarrow> tds" where
  "cacheTokenLogo s tokenMint logo now =
     s\<lparr> logoCache := (logoCache s)(tokenMint \<mapsto> \<lparr> le_logoURI = logo, le_timestamp = now \<rparr>) \<rparr>"

subsection \<open>Fetching with retries\<close>

text \<open>
  What one HTTP request to the upstream API can come to: the request itself fails, the
  status is not ok, the body is not JSON, or a JSON body with its \<^verbatim>\<open>success\<close> flag and
  its \<^verbatim>\<open>data\<close> property. The upstream is a function from the attempt number to the
  response that attempt receives.
\<close>

datatype upstream =
    RequestFails
  | NotOk nat
  | NotJson
  | Body bool "raw_token option"

datatype fetch_error = NetworkError | HttpError nat | ParseError | InvalidFormat | NoError

fun attemptOutcome :: "upstream \<Rightarrow> fetch_error + raw_token" where
  "attemptOutcome RequestFails = Inl NetworkError"
| "attemptOutcome (NotOk st) = Inl (HttpError st)"
| "attemptOutcome NotJson = Inl ParseError"
| "attemptOutcome (Body ok (Some raw)) = (if ok then Inr raw else Inl InvalidFormat)"
| "attemptOutcome (Body ok None) = Inl InvalidFormat"

text \<open>
  The retry loop of \<^verbatim>\<open>fetchTokenData\<close> from attempt number \<open>attempt\<close> on. It returns the
  raw token or the last error (\<open>NoError\<close> is the \<^verbatim>\<open>undefined\<close> thrown when no attempt was
  made), the number of requests made so far, and the delays waited between attempts.
\<close>

function fetchAttempts ::
  "tds_options \<Rightarrow> (nat \<Rightarrow> upstream) \<Rightarrow> nat \<Rightarrow> fetch_error \<Rightarrow> int list
     \<Rightarrow> (fetch_error + raw_token) \<times> nat \<times> int list" where
  "fetchAttempts opts resp attempt lastError delays =
     (if attempt < maxRetries opts then
        (case attemptOutcome (resp attempt) of
           Inr raw \<Rightarrow> (Inr raw, attempt + 1, delays)
         | Inl e \<Rightarrow>
             fetchAttempts opts resp (attempt + 1) e
               (if attempt < maxRetries opts - 1
                then delays @ [retryDelay opts * 2 ^ attempt] else delays))
      else (Inl lastError, attempt, delays))"
  by pat_completeness auto
termination
  by (relation "measure (\<lambda>(opts, resp, attempt, e, ds). maxRetries opts - attempt)") auto

declare fetchAttempts.simps [simp del]

text \<open>An attempt fails when its response does not carry a token.\<close>

definition attemptFails :: "upstream \<Rightarrow> bool" where
  "attemptFails r = (case attemptOutcome r of Inl e \<Rightarrow> True | Inr raw \<Rightarrow> False)"


definition fetchTokenData ::
  "tds_options \<Rightarrow> (nat \<Rightarrow> upstream) \<Rightarrow> int
     \<Rightarrow> (fetch_error + token_data) \<times> nat \<times> int list" where
  "fetchTokenData opts resp now =
     (case fetchAttempts opts resp 0 NoError [] of
        (Inr raw, n, ds) \<Rightarrow> (Inr (processTokenData raw now), n, ds)
      | (Inl e, n, ds) \<Rightarrow> (Inl e, n, ds))"

subsection \<open>getTokenData\<close>

text \<open>
  An \<^verbatim>\<open>async\<close> function runs without interruption up to its first \<^verbatim>\<open>await\<close>.
  \<open>getTokenData_begin\<close> is that first stretch of \<^verbatim>\<open>getTokenData\<close>: it returns at once
  (empty mint, or a live cache entry), or waits for the promise already registered for
  the mint, or calls \<^verbatim>\<open>fetchTokenData\<close>, registers the new promise and waits for it.
  \<open>getTokenData_settle\<close> is what the call that started the fetch does when its promise
  settles; \<open>getTokenData_joined\<close> is what a call waiting for another call's promise does:
  its \<^verbatim>\<open>await\<close> stands outside the \<^verbatim>\<open>try\<close>, so a rejection is rethrown.
\<close>

datatype get_step = Returned "token_data option" | AwaitPending nat | AwaitOwn nat

datatype 'a call_result = Value 'a | Throws fetch_error

definition getTokenData_begin :: "tds \<Rightarrow> string \<Rightarrow> int \<Rightarrow> get_step \<times> tds" where
  "getTokenData_begin s tokenMint now =
     (if tokenMint = [] then (Returned None, s)
      else (case getCachedToken s tokenMint now of
              (Some cached, s1) \<Rightarrow> (Returned (Some cached), s1)
            | (None, s1) \<Rightarrow>
                (case pendingRequests s1 tokenMint of
                   Some p \<Rightarrow> (AwaitPending p, s1)
                 | None \<Rightarrow>
                     (let p = nextPromise s1
                      in (AwaitOwn p,
                          s1\<lparr> pendingRequests := (pendingRequests s1)(tokenMint \<mapsto> p),
                              nextPromise := p + 1,
                              fetchLog := fetchLog s1 @ [tokenMint] \<rparr>)))))"

definition getTokenData_settle ::
  "tds \<Rightarrow> string \<Rightarrow> fetch_error + token_data \<Rightarrow> int \<Rightarrow> token_data option \<times> tds" where
  "getTokenData_settle s tokenMint outcome now =
     (case outcome of
        Inr result \<Rightarrow>
          (let s1 = cacheTokenData s tokenMint (Some result) now
           in (Some result, s1\<lparr> pendingRequests := (pendingRequests s1)(tokenMint := None) \<rparr>))
      | Inl e \<Rightarrow> (None, s\<lparr> pendingRequests := (pendingRequests s)(tokenMint := None) \<rparr>))"

definition getTokenData_joined :: "fetch_error + token_data \<Rightarrow> token_data option call_result" where
  "getTokenData_joined outcome =
     (case outcome of Inr result \<Rightarrow> Value (Some result) | Inl e \<Rightarrow> Throws e)"

text \<open>
  A whole call of \<^verbatim>\<open>getTokenData\<close> with nothing running in between: \<open>resp\<close> answers the
  requests of the fetch this call starts, \<open>pendingOutcome\<close> is how the promise of another
  call settles when this call joins it, \<open>later\<close> is the time at which the promise settles.
\<close>

definition getTokenData ::
  "tds \<Rightarrow> string \<Rightarrow> int \<Rightarrow> (nat \<Rightarrow> upstream) \<Rightarrow> fetch_error + token_data \<Rightarrow> int
     \<Rightarrow> token_data option call_result \<times> tds" where
  "getTokenData s tokenMint now resp pendingOutcome later =
     (case getTokenData_begin s tokenMint now of
        (Returned r, s1) \<Rightarrow> (Value r, s1)
      | (AwaitPending p, s1) \<Rightarrow> (getTokenData_joined pendingOutcome, s1)
      | (AwaitOwn p, s1) \<Rightarrow>
          (case getTokenData_settle s1 tokenMint
                  (fst (fetchTokenData (td_options s1) resp later)) later of
             (r, s2) \<Rightarrow> (Value r, s2)))"

text \<open>
  Calls of \<^verbatim>\<open>getTokenData\<close> issued one after another before any promise settles: each
  runs its first stretch. The result lists what each call returned or waits for.
\<close>

fun getTokenData_calls :: "tds \<Rightarrow> (string \<times> int) list \<Rightarrow> get_step list \<times> tds" where
  "getTokenData_calls s [] = ([], s)"
| "getTokenData_calls s ((tokenMint, now) # rest) =
     (case getTokenData_begin s tokenMint now of
        (r, s1) \<Rightarrow> (case getTokenData_calls s1 rest of (rs, s2) \<Rightarrow> (r # rs, s2)))"

section \<open>Sample states\<close>

text \<open>Concrete options and states on which the model is evaluated.\<close>

definition sample_backend_options :: backend_options where
  "sample_backend_options =
     \<lparr> apiKeys = [''key-a'', ''key-b''], reconnectAttempts = 5, reconnectDelay = 1000,
       maxReconnectDelay = 30000, heartbeatInterval = 30000 \<rparr>"

definition sample_backend :: backend where
  "sample_backend = new_backend sample_backend_options"

text \<open>A backend with two keys, given their last usage times and failure counts.\<close>

definition cooldown_backend :: "int \<Rightarrow> nat \<Rightarrow> int \<Rightarrow> nat \<Rightarrow> backend" where
  "cooldown_backend u0 f0 u1 f1 =
     (new_backend sample_backend_options)
       \<lparr> lastApiKeyUsage := [0 \<mapsto> u0, 1 \<mapsto> u1], apiKeyFailures := [0 \<mapsto> f0, 1 \<mapsto> f1] \<rparr>"

definition sample_tracker :: "int \<Rightarrow> nat tracker" where
  "sample_tracker n = new_tracker \<lparr> maxTransactions = n \<rparr> sample_backend_options"

definition sample_cm_options :: cm_options where
  "sample_cm_options = \<lparr> defaultTTL = 300000, maxSize = 2, cleanupInterval = 60000 \<rparr>"

definition sample_tds_options :: tds_options where
  "sample_tds_options = \<lparr> cacheTimeout = 300000, maxRetries = 3, retryDelay = 1000 \<rparr>"

definition sample_token :: token_data where
  "sample_token =
     \<lparr> address = Some ''So11111111111111111111111111111111111111112'',
       symbol = ''SOL'', name = ''Wrapped SOL'', decimals = 9,
       logoURI = Some ''https://example.org/sol.png'', price = 150, priceUsd = Some 150,
       priceChange24h = 0, volume24h = 0, marketCap = 0, td_supply = 0,
       circulatingSupply = 0, liquidity = 0, lastUpdated = 1000,
       extensions = \<lparr> website = None, twitter = None, telegram = None, discord = None \<rparr> \<rparr>"

text \<open>A service whose full-record tier holds one entry, written at time 1000.\<close>

definition stale_tds :: tds where
  "stale_tds = (new_tds sample_tds_options)
     \<lparr> cache := [''MintA'' \<mapsto> \<lparr> te_data = sample_token, te_timestamp = 1000 \<rparr>] \<rparr>"

text \<open>A fresh service after a first \<^verbatim>\<open>getTokenData\<close> call has started its fetch.\<close>

definition in_flight_tds :: tds where
  "in_flight_tds = snd (getTokenData_begin (new_tds sample_tds_options) ''MintA'' 1000)"

text \<open>An upstream that answers with a server error, then a body without data, then fails.\<close>

definition flaky_upstream :: "nat \<Rightarrow> upstream" where
  "flaky_upstream i = (if i = 0 then NotOk 500 else if i = 1 then Body False None else RequestFails)"

text \<open>
  Four well-formed wallet addresses and two sessions. In the first, four wallets are
  added, the tracker is started, the socket opens, and the last wallet is removed after
  the resubscription loop has handled the third wallet and before it handles the fourth:
  the order in which \<^verbatim>\<open>await tracker.start(); await tracker.removeWallet(D)\<close> runs. In
  the second, which follows the first, the socket closes abnormally, the reconnect timer
  fires, the socket opens again and the loop runs to its end.
\<close>

definition wallet_A :: string where "wallet_A = ''9xQeWvG816bUx9EPjHmaT23yvVM2ZWbrrpZb9PusVFin''"
definition wallet_B :: string where "wallet_B = ''7Np41oeYqPefeNQEHSv1UDhYrehxin3NStELsSKCT4K2''"
definition wallet_C :: string where "wallet_C = ''5Q544fKrFoe6tsEbD7S8EmxGTJYAKtTVhAW5Q5pge4j1''"
definition wallet_D :: string where "wallet_D = ''DYw8jCTfwHNRJhhmFcbXvVDTqWMEVFBX6ZKUmG5CNSKK''"

definition race_session :: "tracker_event list" where
  "race_session =
     [AddWallet wallet_A, AddWallet wallet_B, AddWallet wallet_C, AddWallet wallet_D,
      Start 1000, SocketOpen, ResubscribeContinues, ResubscribeContinues,
      RemoveWallet wallet_D, ResubscribeContinues, ResubscribeContinues]"

definition reconnect_session :: "tracker_event list" where
  "reconnect_session =
     [SocketClose 1006, ReconnectTimerFires 5000, SocketOpen, ResubscribeContinues,
      ResubscribeContinues, ResubscribeContinues, ResubscribeContinues]"

section \<open>Properties of the transaction filter\<close>

text \<open>
  Whole numbers from 0 to \<open>2^53\<close> are doubles and are not changed by rounding, so the
  sum of whole lamport amounts is exact as long as it stays within \<open>2^53\<close>.
\<close>

lemma bitlen_bounds:
  "0 < n \<Longrightarrow> 2 ^ (bitlen n - 1) \<le> n \<and> n < 2 ^ bitlen n"
proof (induction n rule: bitlen.induct)
  case (1 n)
  have b: "bitlen n = Suc (bitlen (n div 2))"
    using "1.prems" by (subst bitlen.simps) simp
  show ?case
  proof (cases "n div 2 = 0")
    case True
    then have n1: "n = 1" using "1.prems" by presburger
    have "bitlen (0::int) = 0" by (subst bitlen.simps) simp
    then show ?thesis using b True n1 by simp
  next
    case False
    then have pos: "0 < n div 2" using "1.prems" by presburger
    have nle: "\<not> n \<le> 0" using "1.prems" by simp
    from "1.IH" [OF nle pos]
    have ih: "2 ^ (bitlen (n div 2) - 1) \<le> n div 2" "n div 2 < 2 ^ bitlen (n div 2)"
      by simp_all
    have bpos: "0 < bitlen (n div 2)"
      using pos by (subst bitlen.simps) simp
    then obtain k where k: "bitlen (n div 2) = Suc k" by (cases "bitlen (n div 2)") simp_all
    have lo: "(2::int) ^ Suc k \<le> n"
    proof -
      have "(2::int) ^ k \<le> n div 2" using ih(1) k by simp
      then have "2 * (2::int) ^ k \<le> 2 * (n div 2)" by simp
      also have "\<dots> \<le> n" by presburger
      finally show ?thesis by simp
    qed
    have hi: "n < 2 ^ Suc (Suc k)"
    proof -
      have "n div 2 + 1 \<le> 2 ^ Suc k" using ih(2) k by simp
      then have "2 * (n div 2) + 2 \<le> 2 * 2 ^ Suc k" by simp
      moreover have "n < 2 * (n div 2) + 2" by presburger
      ultimately show ?thesis by simp
    qed
    show ?thesis using lo hi by (simp add: b k)
  qed
qed

lemma round_half_even_int: "round_half_even (of_int k) = k"
  by (simp add: round_half_even_def)

lemma to_double_nat_exact:
  assumes "0 < n" and "n < 2 ^ 53"
  shows "to_double (of_int n) = Fin (of_int n)"
proof -
  from bitlen_bounds [OF assms(1)]
  have lo: "2 ^ (bitlen n - 1) \<le> n" and hi: "n < 2 ^ bitlen n" by simp_all
  have bpos: "0 < bitlen n" using assms(1) by (subst bitlen.simps) simp
  have p: "(2::int) ^ (bitlen n - 1) < 2 ^ 53" using lo assms(2) by linarith
  have "bitlen n - 1 < 53" by (rule power_less_imp_less_exp [OF _ p]) simp
  then have b53: "bitlen n \<le> 53" by linarith
  define m where "m = 53 - bitlen n"
  have e: "ilog2 (of_int n) = int (bitlen n) - 1"
    using assms(1) by (simp add: ilog2_def)
  have mx: "max (int (bitlen n) - 1) (- 1022) = int (bitlen n) - 1" by simp
  have q: "pow2 (int (bitlen n) - 1 - 52) = 1 / 2 ^ m"
  proof (cases "bitlen n = 53")
    case True
    then show ?thesis by (simp add: pow2_def m_def)
  next
    case False
    then have "int (bitlen n) - 1 - 52 < 0" using b53 by linarith
    moreover have "nat (- (int (bitlen n) - 1 - 52)) = m" using b53 by (simp add: m_def)
    ultimately show ?thesis by (simp add: pow2_def)
  qed
  have a: "\<bar>of_int n :: rat\<bar> = of_int n" using assms(1) by simp
  have d: "(of_int n :: rat) / (1 / 2 ^ m) = of_int (n * 2 ^ m)" by simp
  have r: "round_half_even ((of_int n :: rat) / (1 / 2 ^ m)) = n * 2 ^ m"
    unfolding d by (rule round_half_even_int)
  have ne: "(of_int n :: rat) \<noteq> 0" "(0::rat) < of_int n" using assms(1) by simp_all
  have small: "\<not> 1024 \<le> int (bitlen n) - 1" "int (bitlen n) - 1 \<noteq> 1023"
    using b53 by linarith+
  have bk: "(of_int (n * 2 ^ m) :: rat) * (1 / 2 ^ m) = of_int n" by simp
  show ?thesis
    unfolding to_double_def Let_def a e mx q r
    using ne small bk by simp
qed

lemma to_double_int_exact:
  assumes "0 \<le> n" and "n \<le> 2 ^ 53"
  shows "to_double (of_int n) = Fin (of_int n)"
proof -
  have top: "to_double 9007199254740992 = Fin 9007199254740992" by code_simp
  consider "n = 0" | "n = 2 ^ 53" | "0 < n" "n < 2 ^ 53" using assms by linarith
  then show ?thesis
  proof cases
    case 1
    then show ?thesis by (simp add: to_double_def)
  next
    case 2
    then show ?thesis using top by simp
  next
    case 3
    then show ?thesis by (rule to_double_nat_exact)
  qed
qed

lemma foldl_abs_exact:
  assumes "\<forall>c \<in> set cs. change c = Fin (of_int (k c))"
    and "0 \<le> a" and "a + (\<Sum>c\<leftarrow>cs. \<bar>k c\<bar>) \<le> 2 ^ 53"
  shows "foldl (\<lambda>total c. num_add total (num_abs (change c))) (Fin (of_int a)) cs
           = Fin (of_int (a + (\<Sum>c\<leftarrow>cs. \<bar>k c\<bar>)))"
  using assms
proof (induction cs arbitrary: a)
  case Nil
  then show ?case by simp
next
  case (Cons c cs)
  have ch: "change c = Fin (of_int (k c))" using Cons.prems(1) by simp
  have nn: "0 \<le> (\<Sum>c\<leftarrow>cs. \<bar>k c\<bar>)" by (rule sum_list_nonneg) auto
  have b: "0 \<le> a + \<bar>k c\<bar>" "a + \<bar>k c\<bar> \<le> 2 ^ 53"
    using Cons.prems(2,3) nn by simp_all
  have "num_add (Fin (of_int a)) (num_abs (change c)) = to_double (of_int (a + \<bar>k c\<bar>))"
    by (simp add: ch)
  also have "\<dots> = Fin (of_int (a + \<bar>k c\<bar>))"
    using b by (rule to_double_int_exact)
  finally have step: "num_add (Fin (of_int a)) (num_abs (change c)) = Fin (of_int (a + \<bar>k c\<bar>))" .
  have rest: "\<forall>c \<in> set cs. change c = Fin (of_int (k c))" using Cons.prems(1) by simp
  have tot: "a + \<bar>k c\<bar> + (\<Sum>c\<leftarrow>cs. \<bar>k c\<bar>) \<le> 2 ^ 53" using Cons.prems(3) by simp
  from Cons.IH [OF rest b(1) tot] show ?case
    by (simp add: step add.assoc)
qed

lemma solChange_exact:
  assumes "\<forall>c \<in> set cs. change c = Fin (of_int (k c))"
    and "(\<Sum>c\<leftarrow>cs. \<bar>k c\<bar>) \<le> 2 ^ 53"
  shows "solChange cs = Fin (of_int (\<Sum>c\<leftarrow>cs. \<bar>k c\<bar>))"
  using foldl_abs_exact [OF assms(1), of 0] assms(2) by (simp add: solChange_def)

text \<open>
  The rounding at work. Adding one lamport four times to \<open>2^53\<close> lamports leaves the sum
  at \<open>2^53\<close>, so a threshold between \<open>2^53 / 10^9\<close> and \<open>(2^53 + 4) / 10^9\<close> rejects a
  transaction whose exact total reaches it. The threshold \<^verbatim>\<open>0.001\<close> is the double next
  to \<open>1/1000\<close>, which lies above it, and a total of 1000000 lamports divided by \<open>10^9\<close>
  rounds to that same double and passes.
\<close>

lemma solChange_absorbs_small_terms:
  "solChange [sample_balance 9007199254740992, sample_balance 1, sample_balance 1,
              sample_balance 1, sample_balance 1] = Fin 9007199254740992"
  by code_simp

lemma rounded_sum_below_threshold:
  "\<not> passesAmountFilter (default_filter True (Fin (2417851639229259 / 268435456)) 86400000)
        (sample_tx ''success'' []
           [sample_balance 9007199254740992, sample_balance 1, sample_balance 1,
            sample_balance 1, sample_balance 1])
   \<and> (2417851639229259 / 268435456 :: rat) \<le> (9007199254740992 + 1 + 1 + 1 + 1) / 1000000000"
  by code_simp

lemma default_threshold_is_rounded:
  "to_double (1 / 1000) = Fin (1152921504606847 / 1152921504606846976)
   \<and> (1 / 1000 :: rat) < 1152921504606847 / 1152921504606846976
   \<and> passesAmountFilter (default_filter True (to_double (1 / 1000)) 86400000)
        (sample_tx ''success'' [] [sample_balance 1000000])"
  by code_simp

text \<open>
  C1 (as stated, refuted): the amount predicate is not "some asset delta or some balance
  delta reaches the threshold". A transaction whose only token transfer is below the
  threshold is rejected although one of its balance changes (5 SOL) is above it.
\<close>

theorem C1_amount_counterexample:
  "\<not> passesAmountFilter (default_filter True (Fin 1) 86400000)
        (sample_tx ''success'' [sample_transfer 0] [sample_balance 5000000000])
   \<and> spec_passesAmount (default_filter True (Fin 1) 86400000)
        (sample_tx ''success'' [sample_transfer 0] [sample_balance 5000000000])"
  by code_simp

text \<open>
  C1 (amended): the amount predicate passes exactly when (a) there are token transfers and
  one of them has an absolute UI-unit change of at least \<open>minAmount\<close>, or (b) there are no
  token transfers, there are balance changes, and the double-precision sum of their
  absolute changes, added up in array order from 0 and then divided by \<open>10^9\<close> in double
  precision, is at least \<open>minAmount\<close>, or (c) there are neither token transfers nor
  balance changes. A comparison with not-a-number is false.
\<close>

theorem C1_amount_predicate:
  "passesAmountFilter f tx \<longleftrightarrow>
     (has_items (tokenTransfers tx)
        \<and> (\<exists>t \<in> set (items (tokenTransfers tx)).
              num_ge (num_abs (uiChange t)) (minAmount (options f))))
     \<or> (\<not> has_items (tokenTransfers tx) \<and> has_items (balanceChanges tx)
        \<and> num_ge (num_div (solChange (items (balanceChanges tx))) (Fin 1000000000))
              (minAmount (options f)))
     \<or> (\<not> has_items (tokenTransfers tx) \<and> \<not> has_items (balanceChanges tx))"
  by (auto simp: passesAmountFilter_def list_ex_iff)

theorem C1_amount_predicate_witness:
  "\<not> has_items (tokenTransfers (sample_tx ''success'' [] [sample_balance 600000000, sample_balance (-600000000)]))
   \<and> has_items (balanceChanges (sample_tx ''success'' [] [sample_balance 600000000, sample_balance (-600000000)]))
   \<and> solChange (items (balanceChanges (sample_tx ''success'' [] [sample_balance 600000000, sample_balance (-600000000)])))
        = Fin 1200000000
   \<and> passesAmountFilter (default_filter True (Fin 1) 86400000)
        (sample_tx ''success'' [] [sample_balance 600000000, sample_balance (-600000000)])"
proof -
  have a: "\<not> has_items (tokenTransfers (sample_tx ''success'' [] [sample_balance 600000000, sample_balance (-600000000)]))"
    by (simp add: sample_tx_def has_items_def)
  have b: "has_items (balanceChanges (sample_tx ''success'' [] [sample_balance 600000000, sample_balance (-600000000)]))"
    by (simp add: sample_tx_def has_items_def)
  have c: "solChange (items (balanceChanges (sample_tx ''success'' [] [sample_balance 600000000, sample_balance (-600000000)])))
        = Fin 1200000000"
    by code_simp
  have d: "num_ge (num_div (Fin 1200000000) (Fin 1000000000))
             (minAmount (options (default_filter True (Fin 1) 86400000)))"
    by code_simp
  show ?thesis
    using a b c d C1_amount_predicate [of "default_filter True (Fin 1) 86400000"
      "sample_tx ''success'' [] [sample_balance 600000000, sample_balance (-600000000)]"]
    by simp
qed

text \<open>
  C4 (as stated, refuted): with filtering switched off, \<open>shouldInclude\<close> accepts a failed
  transaction.
\<close>

theorem C4_failed_counterexample:
  "shouldInclude (default_filter False (Fin 1) 86400000) 2000
     (sample_tx ''failed'' [sample_transfer 5] [])"
  by (simp add: shouldInclude_def default_filter_def)

text \<open>
  C4 (amended): when filtering is enabled, every transaction whose status is not
  \<open>success\<close> is rejected by \<open>shouldInclude\<close>, whatever its amounts, instruction program ids,
  participant addresses, timestamp, the lists of the filter and the current time; when
  filtering is disabled, \<open>shouldInclude\<close> accepts every transaction.
\<close>

theorem C4_failed_excluded:
  "(enableFiltering (options f) \<and> status tx \<noteq> ''success'' \<longrightarrow> \<not> shouldInclude f now tx)
   \<and> (\<not> enableFiltering (options f) \<longrightarrow> shouldInclude f now tx)"
  by (simp add: shouldInclude_def passesTypeFilter_def)

theorem C4_failed_excluded_witness:
  "enableFiltering (options (default_filter True (Fin 1) 86400000))
   \<and> status (sample_tx ''failed'' [sample_transfer 5] []) \<noteq> ''success''
   \<and> \<not> shouldInclude (default_filter True (Fin 1) 86400000) 2000
        (sample_tx ''failed'' [sample_transfer 5] [])
   \<and> \<not> enableFiltering (options (default_filter False (Fin 1) 86400000))
   \<and> shouldInclude (default_filter False (Fin 1) 86400000) 2000
        (sample_tx ''failed'' [sample_transfer 5] [])"
proof -
  have a: "enableFiltering (options (default_filter True (Fin 1) 86400000))"
    by (simp add: default_filter_def)
  have b: "status (sample_tx ''failed'' [sample_transfer 5] []) \<noteq> ''success''"
    by (simp add: sample_tx_def)
  have c: "\<not> enableFiltering (options (default_filter False (Fin 1) 86400000))"
    by (simp add: default_filter_def)
  show ?thesis
    using a b c
      C4_failed_excluded [of "default_filter True (Fin 1) 86400000"
        "sample_tx ''failed'' [sample_transfer 5] []" 2000]
      C4_failed_excluded [of "default_filter False (Fin 1) 86400000"
        "sample_tx ''failed'' [sample_transfer 5] []" 2000]
    by simp
qed

section \<open>Properties of the bounded transaction history\<close>

lemma take_append_take: "take n (xs @ take n ys) = take n (xs @ ys)"
  by (simp add: min_def)

lemma addTransaction_transactions:
  assumes "0 \<le> maxTransactions (tr_options t)"
  shows "transactions (addTransaction t tx) =
           take (nat (maxTransactions (tr_options t))) (tx # transactions t)"
  using assms by (simp add: addTransaction_def js_slice0_def Let_def)

lemma addTransaction_options: "tr_options (addTransaction t tx) = tr_options t"
  by (simp add: addTransaction_def Let_def)

lemma foldl_addTransaction_options:
  "tr_options (foldl addTransaction t evs) = tr_options t"
  by (induction evs arbitrary: t) (simp_all add: addTransaction_options)

lemma foldl_addTransaction:
  assumes "int (length (transactions t)) \<le> maxTransactions (tr_options t)"
  shows "transactions (foldl addTransaction t evs) =
           take (nat (maxTransactions (tr_options t))) (rev evs @ transactions t)"
  using assms
proof (induction evs arbitrary: t)
  case Nil
  then show ?case by simp
next
  case (Cons e evs)
  let ?n = "nat (maxTransactions (tr_options t))"
  have n0: "0 \<le> maxTransactions (tr_options t)" using Cons.prems by linarith
  have tx: "transactions (addTransaction t e) = take ?n (e # transactions t)"
    using n0 by (rule addTransaction_transactions)
  have len: "int (length (transactions (addTransaction t e)))
               \<le> maxTransactions (tr_options (addTransaction t e))"
    using n0 by (simp add: tx addTransaction_options)
  have "transactions (foldl addTransaction (addTransaction t e) evs) =
          take ?n (rev evs @ take ?n (e # transactions t))"
    using Cons.IH [OF len] by (simp add: addTransaction_options tx)
  then show ?case by (simp only: foldl_Cons take_append_take rev.simps append_assoc append_Cons append_Nil)
qed

text \<open>
  C6: starting from a history within the capacity \<open>maxTransactions\<close>, after any sequence
  of \<open>addTransaction\<close> calls the history holds at most \<open>maxTransactions\<close> entries and is
  the most recent ones, newest first (the reversed arrival sequence in front of the old
  history, cut to the capacity). After \<open>maxTransactions + 1\<close> distinct events the first one
  is gone and the others remain, newest first.
\<close>

theorem C6_bounded_history:
  assumes "int (length (transactions t)) \<le> maxTransactions (tr_options t)"
  shows "int (length (transactions (foldl addTransaction t evs))) \<le> maxTransactions (tr_options t)
    \<and> transactions (foldl addTransaction t evs) =
         take (nat (maxTransactions (tr_options t))) (rev evs @ transactions t)
    \<and> (int (length evs) = maxTransactions (tr_options t) + 1 \<and> distinct evs \<longrightarrow>
         hd evs \<notin> set (transactions (foldl addTransaction t evs))
         \<and> transactions (foldl addTransaction t evs) = rev (tl evs))"
proof -
  let ?n = "nat (maxTransactions (tr_options t))"
  let ?r = "transactions (foldl addTransaction t evs)"
  have n0: "0 \<le> maxTransactions (tr_options t)" using assms by linarith
  have eq: "?r = take ?n (rev evs @ transactions t)"
    using assms by (rule foldl_addTransaction)
  have bound: "int (length ?r) \<le> maxTransactions (tr_options t)"
    using n0 by (simp add: eq)
  have last: "hd evs \<notin> set ?r \<and> ?r = rev (tl evs)"
    if l: "int (length evs) = maxTransactions (tr_options t) + 1" and d: "distinct evs"
  proof -
    from l n0 obtain e es where ev: "evs = e # es" by (cases evs) auto
    have le: "length es = ?n" using l ev by simp
    have "?r = take ?n (rev es @ e # transactions t)" using eq ev by simp
    then have "?r = rev es" using le by simp
    then show ?thesis using d ev by simp
  qed
  show ?thesis using bound eq last by blast
qed

theorem C6_bounded_history_witness:
  "int (length (transactions (sample_tracker 2))) \<le> maxTransactions (tr_options (sample_tracker 2))
   \<and> transactions (foldl addTransaction (sample_tracker 2) [10, 20, 30]) = [30, 20]
   \<and> 10 \<notin> set (transactions (foldl addTransaction (sample_tracker 2) [10, 20, 30]))"
proof -
  have h: "int (length (transactions (sample_tracker 2))) \<le> maxTransactions (tr_options (sample_tracker 2))"
    by (simp add: sample_tracker_def new_tracker_def)
  show ?thesis
    using h C6_bounded_history [OF h, of "[10, 20, 30]"]
    by (simp add: sample_tracker_def new_tracker_def)
qed


section \<open>Properties of the WebSocket backend\<close>

text \<open>
  C10: \<open>unsubscribeFromWallet\<close> returns true and removes the address from the active and
  the pending subscription sets; nothing is sent on the socket and no event is emitted
  (the trace is unchanged), and the socket, the connection flags, the reconnect counter and
  the timers are unchanged, as is every other field.
\<close>

theorem C10_unsubscribe_frame:
  "fst (unsubscribeFromWallet s a) = True
   \<and> snd (unsubscribeFromWallet s a) =
       s\<lparr> subscriptions := removeAll a (subscriptions s),
          pendingSubscriptions := removeAll a (pendingSubscriptions s) \<rparr>
   \<and> set (subscriptions (snd (unsubscribeFromWallet s a))) = set (subscriptions s) - {a}
   \<and> set (pendingSubscriptions (snd (unsubscribeFromWallet s a))) = set (pendingSubscriptions s) - {a}
   \<and> effects (snd (unsubscribeFromWallet s a)) = effects s
   \<and> websocket (snd (unsubscribeFromWallet s a)) = websocket s
   \<and> isConnected (snd (unsubscribeFromWallet s a)) = isConnected s
   \<and> isConnecting (snd (unsubscribeFromWallet s a)) = isConnecting s
   \<and> reconnectCount (snd (unsubscribeFromWallet s a)) = reconnectCount s
   \<and> reconnectTimer (snd (unsubscribeFromWallet s a)) = reconnectTimer s
   \<and> heartbeatTimer (snd (unsubscribeFromWallet s a)) = heartbeatTimer s
   \<and> keyRotationTimer (snd (unsubscribeFromWallet s a)) = keyRotationTimer s"
  by (simp add: unsubscribeFromWallet_def js_delete_def Let_def)


theorem C10_unsubscribe_frame_witness:
  "snd (unsubscribeFromWallet
          (sample_backend\<lparr> subscriptions := [''A'', ''B''], pendingSubscriptions := [''C'', ''A''] \<rparr>) ''A'')
   = sample_backend\<lparr> subscriptions := [''B''], pendingSubscriptions := [''C''] \<rparr>"
  using C10_unsubscribe_frame
    [of "sample_backend\<lparr> subscriptions := [''A'', ''B''], pendingSubscriptions := [''C'', ''A''] \<rparr>" "''A''"]
  by simp









lemma scanKeys_cases:
  "(scanKeys s now is (b, t) = (b, t)
      \<and> (\<forall>i \<in> set is. \<not> inCooldown s now i \<longrightarrow> t \<le> lastUsageOf s i))
   \<or> (fst (scanKeys s now is (b, t)) \<in> set is
      \<and> \<not> inCooldown s now (fst (scanKeys s now is (b, t)))
      \<and> snd (scanKeys s now is (b, t)) = lastUsageOf s (fst (scanKeys s now is (b, t)))
      \<and> snd (scanKeys s now is (b, t)) < t
      \<and> (\<forall>i \<in> set is. \<not> inCooldown s now i \<longrightarrow> snd (scanKeys s now is (b, t)) \<le> lastUsageOf s i))"
proof (induction "is" arbitrary: b t)
  case Nil
  then show ?case by simp
next
  case (Cons i rest)
  show ?case
  proof (cases "inCooldown s now i")
    case True
    then show ?thesis using Cons.IH [of b t] by auto
  next
    case False
    show ?thesis
    proof (cases "lastUsageOf s i < t")
      case True
      then show ?thesis using False Cons.IH [of i "lastUsageOf s i"] by auto
    next
      case False
      then show ?thesis using \<open>\<not> inCooldown s now i\<close> Cons.IH [of b t] by auto
    qed
  qed
qed

lemma bestKey_eligible:
  assumes "j < length (apiKeys (ws_options s))" and "eligible s now j"
  shows "bestKey s now < length (apiKeys (ws_options s))
         \<and> eligible s now (bestKey s now)
         \<and> (\<forall>i < length (apiKeys (ws_options s)). \<not> inCooldown s now i \<longrightarrow>
               lastUsageOf s (bestKey s now) \<le> lastUsageOf s i)"
  using assms scanKeys_cases [of s now "[0..<length (apiKeys (ws_options s))]" 0 now]
  unfolding bestKey_def eligible_def
  by (auto simp: not_le)

lemma bestKey_fallback:
  assumes "\<forall>j < length (apiKeys (ws_options s)). \<not> eligible s now j"
  shows "bestKey s now = 0"
  using assms scanKeys_cases [of s now "[0..<length (apiKeys (ws_options s))]" 0 now]
  unfolding bestKey_def eligible_def
  by auto

text \<open>
  C2 (as stated, refuted): with every key in cooldown, \<open>getNextApiKey\<close> returns the first
  key although the second one was used longer ago.
\<close>

theorem C2_fallback_counterexample:
  "inCooldown (cooldown_backend 990000 4 950000 4) 1000000 0
   \<and> inCooldown (cooldown_backend 990000 4 950000 4) 1000000 1
   \<and> lastUsageOf (cooldown_backend 990000 4 950000 4) 1 < lastUsageOf (cooldown_backend 990000 4 950000 4) 0
   \<and> fst (getNextApiKey (cooldown_backend 990000 4 950000 4) 1000000) = Some ''key-a''
   \<and> currentApiKeyIndex (snd (getNextApiKey (cooldown_backend 990000 4 950000 4) 1000000)) = 0"
  by (simp add: getNextApiKey_def bestKey_def cooldown_backend_def new_backend_def
      sample_backend_options_def inCooldown_def lastUsageOf_def failuresOf_def Let_def)

text \<open>
  A key that is not in cooldown but was last used at the current instant does not displace
  the initial choice either: key 0, in cooldown, is returned.
\<close>

lemma same_instant_example:
  "inCooldown (cooldown_backend 990000 4 1000000 0) 1000000 0
   \<and> \<not> inCooldown (cooldown_backend 990000 4 1000000 0) 1000000 1
   \<and> currentApiKeyIndex (snd (getNextApiKey (cooldown_backend 990000 4 1000000 0) 1000000)) = 0"
  by (simp add: getNextApiKey_def bestKey_def cooldown_backend_def new_backend_def
      sample_backend_options_def inCooldown_def lastUsageOf_def failuresOf_def Let_def)

text \<open>
  C2 (amended): for a non-empty pool, \<open>getNextApiKey\<close> returns the key at the selected
  index and stamps its usage time. If some key is not in cooldown and was last used before
  the current time, the selected key is such a key, and no key outside cooldown was used
  earlier. If there is no such key (in particular when every key is in cooldown), the
  selected key is the first of the pool.
\<close>

theorem C2_key_selection:
  assumes "apiKeys (ws_options s) \<noteq> []"
  shows "currentApiKeyIndex (snd (getNextApiKey s now)) < length (apiKeys (ws_options s))
    \<and> fst (getNextApiKey s now) =
        Some (apiKeys (ws_options s) ! currentApiKeyIndex (snd (getNextApiKey s now)))
    \<and> lastApiKeyUsage (snd (getNextApiKey s now)) =
        (lastApiKeyUsage s)(currentApiKeyIndex (snd (getNextApiKey s now)) \<mapsto> now)
    \<and> ((\<exists>j < length (apiKeys (ws_options s)). eligible s now j) \<longrightarrow>
          eligible s now (currentApiKeyIndex (snd (getNextApiKey s now)))
          \<and> (\<forall>i < length (apiKeys (ws_options s)). \<not> inCooldown s now i \<longrightarrow>
                lastUsageOf s (currentApiKeyIndex (snd (getNextApiKey s now))) \<le> lastUsageOf s i))
    \<and> ((\<forall>j < length (apiKeys (ws_options s)). \<not> eligible s now j) \<longrightarrow>
          currentApiKeyIndex (snd (getNextApiKey s now)) = 0)"
proof -
  have idx: "currentApiKeyIndex (snd (getNextApiKey s now)) = bestKey s now"
    using assms by (simp add: getNextApiKey_def Let_def)
  have key: "fst (getNextApiKey s now) = Some (apiKeys (ws_options s) ! bestKey s now)"
    using assms by (simp add: getNextApiKey_def Let_def)
  have use: "lastApiKeyUsage (snd (getNextApiKey s now)) = (lastApiKeyUsage s)(bestKey s now \<mapsto> now)"
    using assms by (simp add: getNextApiKey_def Let_def)
  have range: "bestKey s now < length (apiKeys (ws_options s))"
  proof (cases "\<exists>j < length (apiKeys (ws_options s)). eligible s now j")
    case True
    then show ?thesis using bestKey_eligible by blast
  next
    case False
    then have "bestKey s now = 0" using bestKey_fallback by blast
    then show ?thesis using assms by simp
  qed
  show ?thesis
    unfolding idx using key use range bestKey_eligible [of _ s now] bestKey_fallback [of s now]
    by blast
qed

theorem C2_key_selection_witness:
  "apiKeys (ws_options (cooldown_backend 990000 4 400000 0)) \<noteq> []
   \<and> inCooldown (cooldown_backend 990000 4 400000 0) 1000000 0
   \<and> eligible (cooldown_backend 990000 4 400000 0) 1000000 1
   \<and> fst (getNextApiKey (cooldown_backend 990000 4 400000 0) 1000000) = Some ''key-b''
   \<and> currentApiKeyIndex (snd (getNextApiKey (cooldown_backend 990000 4 400000 0) 1000000)) = 1"
proof -
  have h: "apiKeys (ws_options (cooldown_backend 990000 4 400000 0)) \<noteq> []"
    by (simp add: cooldown_backend_def new_backend_def sample_backend_options_def)
  show ?thesis
    using h C2_key_selection [OF h, of 1000000]
    by (simp add: getNextApiKey_def bestKey_def cooldown_backend_def new_backend_def
        sample_backend_options_def eligible_def inCooldown_def lastUsageOf_def failuresOf_def
        Let_def)
qed

section \<open>Properties of the caches\<close>

lemma cm_opts_evictOldest: "cm_opts (evictOldest s now) = cm_opts s"
  by (simp add: evictOldest_def cm_delete_def Let_def)

lemma cm_set_lookup:
  "map_of (cm_cache (cm_set s key d ttl now)) key =
     Some \<lparr> cm_data = d,
            expiresAt = now + (case ttl of None \<Rightarrow> defaultTTL (cm_opts s) | Some t \<Rightarrow> t),
            createdAt = now \<rparr>"
  by (simp add: cm_set_def Let_def update_conv' cm_opts_evictOldest split: option.splits)

lemma cm_get_after_set:
  "fst (cm_get (cm_set s key d ttl t0) key (t0 + t)) =
     (if t \<le> (case ttl of None \<Rightarrow> defaultTTL (cm_opts s) | Some T \<Rightarrow> T) then Some d else None)"
  by (simp add: cm_get_def cm_set_lookup)

lemma cacheTokenData_fields:
  "td_options (cacheTokenData s m d t0) = td_options s"
  "pendingRequests (cacheTokenData s m d t0) = pendingRequests s"
  "fetchLog (cacheTokenData s m d t0) = fetchLog s"
  by (simp_all add: cacheTokenData_def Let_def split: option.splits)

lemma cacheTokenData_cache:
  "cache (cacheTokenData s m (Some d) t0) = (cache s)(m \<mapsto> \<lparr> te_data = d, te_timestamp = t0 \<rparr>)"
  by (simp add: cacheTokenData_def Let_def split: option.splits)

lemma cacheTokenData_priceCache:
  "priceUsd d = Some p \<Longrightarrow>
   priceCache (cacheTokenData s m (Some d) t0) =
     (priceCache s)(m \<mapsto> \<lparr> pe_price = p, pe_timestamp = t0 \<rparr>)"
  by (simp add: cacheTokenData_def Let_def)

lemma cacheTokenData_logoCache:
  "logoURI d = Some l \<Longrightarrow> l \<noteq> [] \<Longrightarrow>
   logoCache (cacheTokenData s m (Some d) t0) =
     (logoCache s)(m \<mapsto> \<lparr> le_logoURI = l, le_timestamp = t0 \<rparr>)"
  by (simp add: cacheTokenData_def Let_def truthy_str_def split: option.splits)

lemma token_after_cache:
  "fst (getCachedToken (cacheTokenData s m (Some d) t0) m (t0 + t)) =
     (if t \<le> cacheTimeout (td_options s) then Some d else None)"
  by (simp add: getCachedToken_def cacheTokenData_cache cacheTokenData_fields)

lemma price_after_cache:
  "priceUsd d = Some p \<Longrightarrow>
   fst (getCachedPrice (cacheTokenData s m (Some d) t0) m (t0 + t)) =
     (if t \<le> 60000 then Some p else None)"
  by (simp add: getCachedPrice_def cacheTokenData_priceCache)

lemma logo_after_cache:
  assumes "truthy_str (logoURI d)"
  shows "fst (getCachedLogo (cacheTokenData s m (Some d) t0) m (t0 + t)) =
     (if t \<le> 3600000 then logoURI d else None)"
proof -
  from assms obtain l where l: "logoURI d = Some l" "l \<noteq> []"
    by (auto simp: truthy_str_def split: option.splits)
  show ?thesis by (simp add: getCachedLogo_def cacheTokenData_logoCache [OF l] l)
qed

text \<open>
  C3 (as stated, refuted): a lookup made exactly \<open>T\<close> after the insertion still returns the
  entry, in the cache manager and in the full-record tier alike; the tests for expiry are
  strict.
\<close>

theorem C3_ttl_boundary_counterexample:
  "fst (cm_get (cm_set (new_cache_manager sample_cm_options) ''k'' (7::nat) (Some 100) 1000)
          ''k'' (1000 + 100)) = Some 7
   \<and> fst (getCachedToken (cacheTokenData (new_tds sample_tds_options) ''MintA'' (Some sample_token) 1000)
          ''MintA'' (1000 + cacheTimeout sample_tds_options)) = Some sample_token"
  using cm_get_after_set [of "new_cache_manager sample_cm_options" "''k''" "7::nat" "Some 100" 1000 100]
    token_after_cache [of "new_tds sample_tds_options" "''MintA''" sample_token 1000
      "cacheTimeout sample_tds_options"]
  by (simp add: new_tds_def)

text \<open>
  C3 (amended): an entry inserted at time \<open>t0\<close> with time-to-live \<open>T\<close> and looked up at
  \<open>t0 + t\<close> is returned unchanged when \<open>t \<le> T\<close> and the lookup returns null when
  \<open>T < t\<close>. This holds for \<open>CacheManager.get\<close> after \<open>set\<close> (\<open>T\<close> the given ttl, or
  \<open>defaultTTL\<close>), and after \<open>cacheTokenData\<close> for the full record (\<open>T = cacheTimeout\<close>),
  for the price when the record has one (\<open>T = 60000\<close>) and for the logo when the record
  has a non-empty one (\<open>T = 3600000\<close>).
\<close>

theorem C3_ttl_lookup:
  "fst (cm_get (cm_set c key v ttl t0) key (t0 + t)) =
     (if t \<le> (case ttl of None \<Rightarrow> defaultTTL (cm_opts c) | Some T \<Rightarrow> T) then Some v else None)
   \<and> fst (getCachedToken (cacheTokenData s m (Some d) t0) m (t0 + t)) =
     (if t \<le> cacheTimeout (td_options s) then Some d else None)
   \<and> (priceUsd d = Some p \<longrightarrow>
        fst (getCachedPrice (cacheTokenData s m (Some d) t0) m (t0 + t)) =
          (if t \<le> 60000 then Some p else None))
   \<and> (truthy_str (logoURI d) \<longrightarrow>
        fst (getCachedLogo (cacheTokenData s m (Some d) t0) m (t0 + t)) =
          (if t \<le> 3600000 then logoURI d else None))"
  by (simp add: cm_get_after_set token_after_cache price_after_cache logo_after_cache)

theorem C3_ttl_lookup_witness:
  "priceUsd sample_token = Some 150 \<and> truthy_str (logoURI sample_token)
   \<and> fst (cm_get (cm_set (new_cache_manager sample_cm_options) ''k'' (7::nat) None 1000) ''k'' (1000 + 300001)) = None
   \<and> fst (getCachedToken (cacheTokenData (new_tds sample_tds_options) ''MintA'' (Some sample_token) 1000)
          ''MintA'' (1000 + 299999)) = Some sample_token
   \<and> fst (getCachedPrice (cacheTokenData (new_tds sample_tds_options) ''MintA'' (Some sample_token) 1000)
          ''MintA'' (1000 + 60001)) = None
   \<and> fst (getCachedLogo (cacheTokenData (new_tds sample_tds_options) ''MintA'' (Some sample_token) 1000)
          ''MintA'' (1000 + 3600000)) = Some ''https://example.org/sol.png''"
proof -
  have p: "priceUsd sample_token = Some 150" by (simp add: sample_token_def)
  have l: "truthy_str (logoURI sample_token)" by (simp add: sample_token_def truthy_str_def)
  have lv: "logoURI sample_token = Some ''https://example.org/sol.png''" by (simp add: sample_token_def)
  show ?thesis
    using p l lv
      C3_ttl_lookup [of "new_cache_manager sample_cm_options" "''k''" "7::nat" None 1000 300001
         "new_tds sample_tds_options" "''MintA''" sample_token 150]
      C3_ttl_lookup [of "new_cache_manager sample_cm_options" "''k''" "7::nat" None 1000 299999
         "new_tds sample_tds_options" "''MintA''" sample_token 150]
      C3_ttl_lookup [of "new_cache_manager sample_cm_options" "''k''" "7::nat" None 1000 60001
         "new_tds sample_tds_options" "''MintA''" sample_token 150]
      C3_ttl_lookup [of "new_cache_manager sample_cm_options" "''k''" "7::nat" None 1000 3600000
         "new_tds sample_tds_options" "''MintA''" sample_token 150]
    by (simp add: new_tds_def new_cache_manager_def sample_tds_options_def sample_cm_options_def)
qed

section \<open>Properties of getTokenData\<close>

lemma fetchAttempts_all_fail:
  assumes "\<forall>i. attempt \<le> i \<and> i < maxRetries opts \<longrightarrow> attemptFails (resp i)"
  shows "\<exists>e. fst (fetchAttempts opts resp attempt lastError delays) = Inl e"
  using assms
proof (induction opts resp attempt lastError delays rule: fetchAttempts.induct)
  case (1 opts resp attempt lastError delays)
  show ?case
  proof (cases "attempt < maxRetries opts")
    case False
    then show ?thesis by (simp add: fetchAttempts.simps)
  next
    case True
    then have "attemptFails (resp attempt)" using "1.prems" by simp
    then obtain e where e: "attemptOutcome (resp attempt) = Inl e"
      by (auto simp: attemptFails_def split: sum.splits)
    have "\<forall>i. attempt + 1 \<le> i \<and> i < maxRetries opts \<longrightarrow> attemptFails (resp i)"
      using "1.prems" by simp
    from "1.IH" [OF True e this] show ?thesis
      using True e by (subst fetchAttempts.simps) simp
  qed
qed

lemma fetchAttempts_count_mono:
  "attempt \<le> fst (snd (fetchAttempts opts resp attempt lastError delays))"
proof (induction opts resp attempt lastError delays rule: fetchAttempts.induct)
  case (1 opts resp attempt lastError delays)
  show ?case
  proof (cases "attempt < maxRetries opts")
    case False
    then show ?thesis by (simp add: fetchAttempts.simps)
  next
    case True
    show ?thesis
    proof (cases "attemptOutcome (resp attempt)")
      case (Inr raw)
      then show ?thesis using True by (subst fetchAttempts.simps) simp
    next
      case (Inl e)
      from "1.IH" [OF True Inl] have "attempt + 1 \<le> fst (snd (fetchAttempts opts resp (attempt + 1) e
               (if attempt < maxRetries opts - 1
                then delays @ [retryDelay opts * 2 ^ attempt] else delays)))" .
      then show ?thesis using True Inl by (subst fetchAttempts.simps) simp
    qed
  qed
qed

lemma fetchAttempts_requests:
  assumes "attempt < maxRetries opts"
  shows "attempt < fst (snd (fetchAttempts opts resp attempt lastError delays))"
proof (cases "attemptOutcome (resp attempt)")
  case (Inr raw)
  then show ?thesis using assms by (subst fetchAttempts.simps) simp
next
  case (Inl e)
  have "attempt + 1 \<le> fst (snd (fetchAttempts opts resp (attempt + 1) e
               (if attempt < maxRetries opts - 1
                then delays @ [retryDelay opts * 2 ^ attempt] else delays)))"
    by (rule fetchAttempts_count_mono)
  then show ?thesis using assms Inl by (subst fetchAttempts.simps) simp
qed

lemma fetchTokenData_all_fail:
  assumes "\<forall>i < maxRetries opts. attemptFails (resp i)"
  shows "\<exists>e. fst (fetchTokenData opts resp later) = Inl e"
proof -
  from assms have "\<forall>i. 0 \<le> i \<and> i < maxRetries opts \<longrightarrow> attemptFails (resp i)" by simp
  from fetchAttempts_all_fail [OF this, of NoError "[]"]
  obtain e where "fst (fetchAttempts opts resp 0 NoError []) = Inl e" by blast
  then show ?thesis
    by (cases "fetchAttempts opts resp 0 NoError []") (auto simp: fetchTokenData_def)
qed

lemma fetchTokenData_requests:
  assumes "0 < maxRetries opts"
  shows "0 < fst (snd (fetchTokenData opts resp later))"
  using fetchAttempts_requests [OF assms, of resp NoError "[]"]
  by (cases "fetchAttempts opts resp 0 NoError []")
     (auto simp: fetchTokenData_def split: sum.splits)

lemma getCachedToken_miss:
  assumes "fst (getCachedToken s m now) = None"
  shows "snd (getCachedToken s m now) = s\<lparr> cache := (cache s)(m := None) \<rparr>"
  using assms
  by (auto simp: getCachedToken_def fun_upd_idem split: option.splits if_splits)

lemma getCachedToken_absent:
  "cache s m = None \<Longrightarrow> getCachedToken s m now = (None, s)"
  by (simp add: getCachedToken_def)

lemma begin_starts_fetch:
  assumes "m \<noteq> []" and "fst (getCachedToken s m now) = None" and "pendingRequests s m = None"
  shows "getTokenData_begin s m now =
           (AwaitOwn (nextPromise s),
            s\<lparr> cache := (cache s)(m := None),
               pendingRequests := (pendingRequests s)(m \<mapsto> nextPromise s),
               nextPromise := nextPromise s + 1,
               fetchLog := fetchLog s @ [m] \<rparr>)"
proof -
  have "getCachedToken s m now = (None, s\<lparr> cache := (cache s)(m := None) \<rparr>)"
    using assms(2) getCachedToken_miss [OF assms(2)] by (cases "getCachedToken s m now") simp
  then show ?thesis using assms(1,3) by (simp add: getTokenData_begin_def Let_def)
qed

text \<open>
  When the mint has an expired entry in the full-record tier and every attempt fails,
  \<open>getTokenData\<close> returns null and the expired entry is gone: the lookup that found it
  expired has removed it.
\<close>

lemma expired_entry_removed_on_lookup:
  "fst (getTokenData stale_tds ''MintA'' 400000 (\<lambda>i. RequestFails) (Inl NoError) 410000) = Value None
   \<and> cache stale_tds ''MintA'' \<noteq> None
   \<and> cache (snd (getTokenData stale_tds ''MintA'' 400000 (\<lambda>i. RequestFails) (Inl NoError) 410000)) ''MintA'' = None"
  by (simp add: getTokenData_def getTokenData_begin_def getTokenData_settle_def getCachedToken_def
      fetchTokenData_def fetchAttempts.simps stale_tds_def new_tds_def sample_tds_options_def Let_def)

text \<open>
  The call that starts the fetch: for a non-empty mint with no live entry in the
  full-record tier and no request in flight, when every attempt of the fetch fails,
  \<open>getTokenData\<close> returns null, leaves the price and logo tiers and the table of requests
  in flight as they were, and adds no entry to the full-record tier (an expired entry of
  this mint is removed by the lookup). A following \<open>getTokenData\<close> for the mint, at any
  time, starts a new fetch, which makes at least one request when \<open>maxRetries\<close> is
  positive.
\<close>

lemma starting_call_failure_not_cached:
  assumes "tokenMint \<noteq> []"
    and "fst (getCachedToken s tokenMint now) = None"
    and "pendingRequests s tokenMint = None"
    and "\<forall>i < maxRetries (td_options s). attemptFails (resp i)"
  shows "fst (getTokenData s tokenMint now resp pendingOutcome later) = Value None
    \<and> priceCache (snd (getTokenData s tokenMint now resp pendingOutcome later)) = priceCache s
    \<and> logoCache (snd (getTokenData s tokenMint now resp pendingOutcome later)) = logoCache s
    \<and> cache (snd (getTokenData s tokenMint now resp pendingOutcome later)) = (cache s)(tokenMint := None)
    \<and> pendingRequests (snd (getTokenData s tokenMint now resp pendingOutcome later)) = pendingRequests s
    \<and> fst (getTokenData_begin (snd (getTokenData s tokenMint now resp pendingOutcome later)) tokenMint now2)
        = AwaitOwn (nextPromise (snd (getTokenData s tokenMint now resp pendingOutcome later)))
    \<and> fetchLog (snd (getTokenData_begin (snd (getTokenData s tokenMint now resp pendingOutcome later)) tokenMint now2))
        = fetchLog s @ [tokenMint, tokenMint]
    \<and> (0 < maxRetries (td_options s) \<longrightarrow>
          0 < fst (snd (fetchTokenData (td_options s) resp2 later2)))"
proof -
  let ?s1 = "s\<lparr> cache := (cache s)(tokenMint := None),
               pendingRequests := (pendingRequests s)(tokenMint \<mapsto> nextPromise s),
               nextPromise := nextPromise s + 1,
               fetchLog := fetchLog s @ [tokenMint] \<rparr>"
  let ?s2 = "?s1\<lparr> pendingRequests := (pendingRequests ?s1)(tokenMint := None) \<rparr>"
  have b: "getTokenData_begin s tokenMint now = (AwaitOwn (nextPromise s), ?s1)"
    using assms(1-3) by (rule begin_starts_fetch)
  obtain e where e: "fst (fetchTokenData (td_options s) resp later) = Inl e"
    using fetchTokenData_all_fail [OF assms(4)] by blast
  have g: "getTokenData s tokenMint now resp pendingOutcome later = (Value None, ?s2)"
    by (simp add: getTokenData_def b e getTokenData_settle_def)
  have p: "pendingRequests ?s2 = pendingRequests s"
    using assms(3) by (auto simp: fun_eq_iff)
  have b2: "getTokenData_begin ?s2 tokenMint now2 =
      (AwaitOwn (nextPromise ?s2),
       ?s2\<lparr> cache := (cache ?s2)(tokenMint := None),
            pendingRequests := (pendingRequests ?s2)(tokenMint \<mapsto> nextPromise ?s2),
            nextPromise := nextPromise ?s2 + 1,
            fetchLog := fetchLog ?s2 @ [tokenMint] \<rparr>)"
    by (rule begin_starts_fetch) (simp_all add: assms(1) getCachedToken_absent)
  have r: "0 < maxRetries (td_options s) \<longrightarrow>
             0 < fst (snd (fetchTokenData (td_options s) resp2 later2))"
    using fetchTokenData_requests [of "td_options s" resp2 later2] by blast
  have f: "priceCache ?s2 = priceCache s" "logoCache ?s2 = logoCache s"
    "cache ?s2 = (cache s)(tokenMint := None)" "fetchLog ?s2 @ [tokenMint] = fetchLog s @ [tokenMint, tokenMint]"
    by simp_all
  show ?thesis
    apply (simp only: g b2 fst_conv snd_conv)
    using p r f by simp
qed

text \<open>
  C8: a call that joins a request in flight does not return null when the fetch fails on
  all attempts. The first call starts the fetch (promise 0) and, when the fetch has
  failed, returns null; the second call, issued while the fetch is in flight, waits for
  the same promise outside the \<^verbatim>\<open>try\<close> and throws the error of the fetch.
\<close>

theorem C8_joined_call_rejects:
  "fst (getTokenData_begin (new_tds sample_tds_options) ''MintA'' 1000) = AwaitOwn 0
   \<and> fst (getTokenData_begin in_flight_tds ''MintA'' 1001) = AwaitPending 0
   \<and> fst (fetchTokenData sample_tds_options flaky_upstream 8000) = Inl NetworkError
   \<and> fst (getTokenData_settle in_flight_tds ''MintA''
             (fst (fetchTokenData sample_tds_options flaky_upstream 8000)) 8000) = None
   \<and> fst (getTokenData in_flight_tds ''MintA'' 1001 flaky_upstream
             (fst (fetchTokenData sample_tds_options flaky_upstream 8000)) 8000)
       = Throws NetworkError"
  by (simp add: in_flight_tds_def getTokenData_def getTokenData_begin_def getTokenData_settle_def
      getTokenData_joined_def getCachedToken_def fetchTokenData_def fetchAttempts.simps
      flaky_upstream_def new_tds_def sample_tds_options_def Let_def)

lemma begin_joins:
  assumes "m \<noteq> []" and "cache s m = None" and "pendingRequests s m = Some p"
  shows "getTokenData_begin s m t = (AwaitPending p, s)"
  using assms by (simp add: getTokenData_begin_def getCachedToken_absent)

lemma getCachedToken_other:
  "cache (snd (getCachedToken s m' t)) m = None \<longleftrightarrow> cache s m = None \<or> (m' = m \<and> fst (getCachedToken s m' t) = None)"
  by (auto simp: getCachedToken_def split: option.splits if_splits)

lemma getCachedToken_frame:
  "pendingRequests (snd (getCachedToken s m t)) = pendingRequests s"
  "fetchLog (snd (getCachedToken s m t)) = fetchLog s"
  "nextPromise (snd (getCachedToken s m t)) = nextPromise s"
  by (simp_all add: getCachedToken_def split: option.splits)

lemma begin_in_flight:
  assumes "m \<noteq> []" and "cache s m = None" and "pendingRequests s m = Some p"
    and "getTokenData_begin s m' t = (r, s')"
  shows "cache s' m = None \<and> pendingRequests s' m = Some p
    \<and> count_list (fetchLog s') m = count_list (fetchLog s) m
    \<and> (m' = m \<longrightarrow> r = AwaitPending p)"
proof (cases "m' = m")
  case True
  then show ?thesis using assms begin_joins [OF assms(1-3), of t] by simp
next
  case False
  obtain c s0 where g: "getCachedToken s m' t = (c, s0)" by (cases "getCachedToken s m' t")
  have s0: "cache s0 m = None" "pendingRequests s0 = pendingRequests s" "fetchLog s0 = fetchLog s"
    using getCachedToken_other [of s m' t m] getCachedToken_frame [of s m' t] g assms(2) by simp_all
  show ?thesis
    using assms(2,3,4) False s0
    by (auto simp: getTokenData_begin_def g Let_def split: if_splits option.splits)
qed

lemma calls_in_flight:
  assumes "m \<noteq> []" and "cache s m = None" and "pendingRequests s m = Some p"
  shows "length (fst (getTokenData_calls s calls)) = length calls
    \<and> (\<forall>i < length calls. fst (calls ! i) = m \<longrightarrow> fst (getTokenData_calls s calls) ! i = AwaitPending p)
    \<and> count_list (fetchLog (snd (getTokenData_calls s calls))) m = count_list (fetchLog s) m
    \<and> pendingRequests (snd (getTokenData_calls s calls)) m = Some p"
  using assms(2,3)
proof (induction calls arbitrary: s)
  case Nil
  then show ?case by simp
next
  case (Cons c calls)
  obtain m' t where c: "c = (m', t)" by (cases c)
  obtain r s1 where b: "getTokenData_begin s m' t = (r, s1)" by (cases "getTokenData_begin s m' t")
  obtain rs s2 where r: "getTokenData_calls s1 calls = (rs, s2)" by (cases "getTokenData_calls s1 calls")
  from begin_in_flight [OF assms(1) Cons.prems b]
  have s1: "cache s1 m = None" "pendingRequests s1 m = Some p"
    "count_list (fetchLog s1) m = count_list (fetchLog s) m" "m' = m \<longrightarrow> r = AwaitPending p"
    by simp_all
  from Cons.IH [OF s1(1,2)] r
  have ih: "length rs = length calls"
    "\<forall>i < length calls. fst (calls ! i) = m \<longrightarrow> rs ! i = AwaitPending p"
    "count_list (fetchLog s2) m = count_list (fetchLog s1) m" "pendingRequests s2 m = Some p"
    by simp_all
  have nth: "fst ((c # calls) ! i) = m \<longrightarrow> (r # rs) ! i = AwaitPending p" if "i < length (c # calls)" for i
    using that ih(2) s1(4) c by (cases i) auto
  show ?case
    using ih s1 nth by (simp add: c b r)
qed

text \<open>
  C9: once a call of \<open>getTokenData\<close> has started the fetch for a mint (promise \<open>p\<close>), every
  call issued before that promise settles, among calls for any mints at any times, waits
  for the same promise \<open>p\<close> when it is for that mint, and \<open>fetchTokenData\<close> has been invoked
  exactly once for the mint: the first call's invocation and no other.
\<close>

theorem C9_in_flight_dedup:
  assumes "getTokenData_begin s tokenMint now = (AwaitOwn p, s1)"
  shows "fetchLog s1 = fetchLog s @ [tokenMint]
    \<and> length (fst (getTokenData_calls s1 calls)) = length calls
    \<and> (\<forall>i < length calls. fst (calls ! i) = tokenMint \<longrightarrow>
          fst (getTokenData_calls s1 calls) ! i = AwaitPending p)
    \<and> count_list (fetchLog (snd (getTokenData_calls s1 calls))) tokenMint
        = count_list (fetchLog s) tokenMint + 1
    \<and> pendingRequests (snd (getTokenData_calls s1 calls)) tokenMint = Some p"
proof -
  obtain c s0 where g: "getCachedToken s tokenMint now = (c, s0)"
    by (cases "getCachedToken s tokenMint now")
  have m: "tokenMint \<noteq> []" using assms by (auto simp: getTokenData_begin_def)
  have cn: "c = None" and pn: "pendingRequests s0 tokenMint = None"
    using assms m by (auto simp: getTokenData_begin_def g split: option.splits)
  have s0: "cache s0 tokenMint = None" "fetchLog s0 = fetchLog s"
    using getCachedToken_other [of s tokenMint now tokenMint] getCachedToken_frame [of s tokenMint now] g cn
    by simp_all
  have s1: "s1 = s0\<lparr> pendingRequests := (pendingRequests s0)(tokenMint \<mapsto> p),
                    nextPromise := p + 1, fetchLog := fetchLog s0 @ [tokenMint] \<rparr>"
    using assms m cn pn by (auto simp: getTokenData_begin_def g Let_def)
  have i1: "cache s1 tokenMint = None" "pendingRequests s1 tokenMint = Some p"
    "fetchLog s1 = fetchLog s @ [tokenMint]"
    using s0 by (simp_all add: s1)
  show ?thesis
    using calls_in_flight [OF m i1(1,2), of calls] i1(3) by simp
qed

theorem C9_in_flight_dedup_witness:
  "getTokenData_begin (new_tds sample_tds_options) ''MintA'' 1000 =
     (AwaitOwn 0, (new_tds sample_tds_options)\<lparr> pendingRequests := [''MintA'' \<mapsto> 0],
                     nextPromise := 1, fetchLog := [''MintA''] \<rparr>)
   \<and> fst (getTokenData_calls
        ((new_tds sample_tds_options)\<lparr> pendingRequests := [''MintA'' \<mapsto> 0],
                     nextPromise := 1, fetchLog := [''MintA''] \<rparr>)
        [(''MintA'', 1001), (''MintB'', 1002), (''MintA'', 1003)]) ! 2 = AwaitPending 0
   \<and> count_list (fetchLog (snd (getTokenData_calls
        ((new_tds sample_tds_options)\<lparr> pendingRequests := [''MintA'' \<mapsto> 0],
                     nextPromise := 1, fetchLog := [''MintA''] \<rparr>)
        [(''MintA'', 1001), (''MintB'', 1002), (''MintA'', 1003)]))) ''MintA'' = 1"
proof -
  have h: "getTokenData_begin (new_tds sample_tds_options) ''MintA'' 1000 =
     (AwaitOwn 0, (new_tds sample_tds_options)\<lparr> pendingRequests := [''MintA'' \<mapsto> 0],
                     nextPromise := 1, fetchLog := [''MintA''] \<rparr>)"
    by (simp add: getTokenData_begin_def getCachedToken_def new_tds_def Let_def)
  show ?thesis
    using h C9_in_flight_dedup [OF h, of "[(''MintA'', 1001), (''MintB'', 1002), (''MintA'', 1003)]"]
    by (simp add: new_tds_def)
qed

section \<open>Properties of resubscription\<close>

lemma set_js_add: "set (js_add x s) = insert x (set s)"
  by (auto simp: js_add_def)

lemma set_js_delete: "set (js_delete x s) = set s - {x}"
  by (simp add: js_delete_def)

lemma distinct_js_add: "distinct s \<Longrightarrow> distinct (js_add x s)"
  by (simp add: js_add_def)

lemma foldl_js_add:
  "set (foldl (\<lambda>acc a. js_add a acc) acc xs) = set acc \<union> set xs
   \<and> (distinct acc \<longrightarrow> distinct (foldl (\<lambda>acc a. js_add a acc) acc xs))"
  by (induction xs arbitrary: acc) (auto simp: set_js_add distinct_js_add)

lemma set_allSubscriptions:
  "set (allSubscriptions s) = set (subscriptions s) \<union> set (pendingSubscriptions s)"
  using foldl_js_add [of "[]" "subscriptions s @ pendingSubscriptions s"]
  by (simp add: allSubscriptions_def)

lemma distinct_allSubscriptions: "distinct (allSubscriptions s)"
  using foldl_js_add [of "[]" "subscriptions s @ pendingSubscriptions s"]
  by (simp add: allSubscriptions_def)

lemma subscribe_connected:
  assumes "isConnected s"
  shows "isConnected (snd (subscribeToWallet s a))"
    and "websocket (snd (subscribeToWallet s a)) = websocket s"
    and "set (subscriptions (snd (subscribeToWallet s a))) = insert a (set (subscriptions s))"
    and "set (pendingSubscriptions (snd (subscribeToWallet s a))) = set (pendingSubscriptions s) - {a}"
    and "effects (snd (subscribeToWallet s a)) =
           effects s @ (if websocket s = Some OPEN then [Send (TransactionSubscribe a)] else [])"
  using assms
  by (simp_all add: subscribeToWallet_def sendMessage_def Let_def set_js_add set_js_delete)

lemma resubscribe_fold:
  assumes "isConnected s"
  shows "isConnected (foldl (\<lambda>st a. snd (subscribeToWallet st a)) s as)
    \<and> websocket (foldl (\<lambda>st a. snd (subscribeToWallet st a)) s as) = websocket s
    \<and> set (subscriptions (foldl (\<lambda>st a. snd (subscribeToWallet st a)) s as))
        = set (subscriptions s) \<union> set as
    \<and> set (pendingSubscriptions (foldl (\<lambda>st a. snd (subscribeToWallet st a)) s as))
        = set (pendingSubscriptions s) - set as
    \<and> effects (foldl (\<lambda>st a. snd (subscribeToWallet st a)) s as)
        = effects s @ (if websocket s = Some OPEN
                       then map (\<lambda>a. Send (TransactionSubscribe a)) as else [])"
  using assms
proof (induction as arbitrary: s)
  case Nil
  then show ?case by simp
next
  case (Cons a as)
  note c = subscribe_connected [OF Cons.prems, of a]
  from Cons.IH [OF c(1)] show ?case
    by (auto simp: c)
qed

lemma sentAddresses_append: "sentAddresses (xs @ ys) = sentAddresses xs @ sentAddresses ys"
  by (induction xs rule: sentAddresses.induct) simp_all

lemma sentAddresses_sends: "sentAddresses (map (\<lambda>a. Send (TransactionSubscribe a)) as) = as"
  by (induction as) simp_all

lemma subscribeToWallet_loops:
  "resubscribeLoops (snd (subscribeToWallet s a)) = resubscribeLoops s"
  "snd (subscribeToWallet (s\<lparr> resubscribeLoops := l \<rparr>) a)
     = (snd (subscribeToWallet s a))\<lparr> resubscribeLoops := l \<rparr>"
  by (simp_all add: subscribeToWallet_def sendMessage_def Let_def)

lemma foldl_subscribe_loops:
  "foldl (\<lambda>st a. snd (subscribeToWallet st a)) (s\<lparr> resubscribeLoops := l \<rparr>) as
     = (foldl (\<lambda>st a. snd (subscribeToWallet st a)) s as)\<lparr> resubscribeLoops := l \<rparr>"
  by (induction as arbitrary: s) (simp_all add: subscribeToWallet_loops)

text \<open>
  A single suspended run, continued to its end with nothing in between, subscribes the
  rest of its snapshot in order.
\<close>

lemma drain_single_loop:
  "(resubscribeStep ^^ Suc (length rest)) (s\<lparr> resubscribeLoops := [rest] \<rparr>)
     = (foldl (\<lambda>st a. snd (subscribeToWallet st a)) s rest)\<lparr> resubscribeLoops := [] \<rparr>"
proof (induction rest arbitrary: s)
  case Nil
  show ?case by (simp add: resubscribeStep_def)
next
  case (Cons w r)
  have step: "resubscribeStep (s\<lparr> resubscribeLoops := [w # r] \<rparr>)
                = (snd (subscribeToWallet s w))\<lparr> resubscribeLoops := [r] \<rparr>"
    by (simp add: resubscribeStep_def subscribeToWallet_loops Let_def)
  have "(resubscribeStep ^^ Suc (length (w # r))) (s\<lparr> resubscribeLoops := [w # r] \<rparr>)
          = (resubscribeStep ^^ Suc (length r)) (resubscribeStep (s\<lparr> resubscribeLoops := [w # r] \<rparr>))"
    by (simp only: length_Cons funpow_Suc_right o_apply)
  also have "\<dots> = (foldl (\<lambda>st a. snd (subscribeToWallet st a)) (snd (subscribeToWallet s w)) r)
                     \<lparr> resubscribeLoops := [] \<rparr>"
    unfolding step by (rule Cons.IH)
  finally show ?case by simp
qed

text \<open>
  When nothing runs between \<open>handleOpen\<close> and the end of the loop it starts, every active
  and pending subscription is subscribed once on the open socket, all of them are active
  afterwards and none is pending.
\<close>

lemma uninterrupted_resubscription:
  assumes "resubscribeLoops s = []" and "websocket s = Some OPEN"
  shows "set (subscriptions ((resubscribeStep ^^ length (allSubscriptions s)) (handleOpen s)))
           = set (subscriptions s) \<union> set (pendingSubscriptions s)"
    and "pendingSubscriptions ((resubscribeStep ^^ length (allSubscriptions s)) (handleOpen s)) = []"
    and "resubscribeLoops ((resubscribeStep ^^ length (allSubscriptions s)) (handleOpen s)) = []"
    and "effects ((resubscribeStep ^^ length (allSubscriptions s)) (handleOpen s))
           = effects s @ [Emit Connected]
               @ map (\<lambda>a. Send (TransactionSubscribe a)) (allSubscriptions s)"
proof -
  define s2 where "s2 = setupHeartbeat (s\<lparr> isConnected := True, isConnecting := False,
      reconnectCount := 0, effects := effects s @ [Emit Connected] \<rparr>)"
  have s2: "isConnected s2" "websocket s2 = Some OPEN" "subscriptions s2 = subscriptions s"
    "pendingSubscriptions s2 = pendingSubscriptions s" "effects s2 = effects s @ [Emit Connected]"
    "resubscribeLoops s2 = []"
    using assms by (simp_all add: s2_def setupHeartbeat_def)
  have a: "allSubscriptions s2 = allSubscriptions s"
    by (simp add: allSubscriptions_def s2)
  have h: "handleOpen s = resubscribeAll s2"
    by (simp add: handleOpen_def Let_def s2_def)
  let ?end = "(resubscribeStep ^^ length (allSubscriptions s)) (handleOpen s)"
  have e: "?end = (foldl (\<lambda>st a. snd (subscribeToWallet st a)) s2 (allSubscriptions s))
                    \<lparr> resubscribeLoops := [] \<rparr>"
  proof (cases "allSubscriptions s")
    case Nil
    then show ?thesis using s2(6) by (simp add: h resubscribeAll_def a)
  next
    case (Cons w rest)
    have "handleOpen s = (snd (subscribeToWallet s2 w))\<lparr> resubscribeLoops := [rest] \<rparr>"
      using Cons s2(6) by (simp add: h resubscribeAll_def a Let_def subscribeToWallet_loops)
    then have "?end = (resubscribeStep ^^ Suc (length rest))
                        ((snd (subscribeToWallet s2 w))\<lparr> resubscribeLoops := [rest] \<rparr>)"
      using Cons by simp
    also have "\<dots> = (foldl (\<lambda>st a. snd (subscribeToWallet st a)) (snd (subscribeToWallet s2 w)) rest)
                       \<lparr> resubscribeLoops := [] \<rparr>"
      by (rule drain_single_loop)
    finally show ?thesis using Cons by simp
  qed
  note f = resubscribe_fold [OF s2(1), of "allSubscriptions s"]
  show "set (subscriptions ?end) = set (subscriptions s) \<union> set (pendingSubscriptions s)"
    using f by (auto simp: e s2 set_allSubscriptions)
  have "set (pendingSubscriptions ?end) = {}"
    using f by (auto simp: e s2 set_allSubscriptions)
  then show "pendingSubscriptions ?end = []" by simp
  show "resubscribeLoops ?end = []" by (simp add: e)
  show "effects ?end = effects s @ [Emit Connected]
               @ map (\<lambda>a. Send (TransactionSubscribe a)) (allSubscriptions s)"
    using f by (simp add: e s2)
qed

text \<open>
  C5: the code resubscribes from a snapshot taken when the socket opens, one wallet per
  continuation, and a wallet removed while the loop is under way is subscribed again.
  After the first session the removed wallet D is an active subscription although it is
  not tracked; after the reconnection that follows, the subscription messages sent are
  those for A, B, C, D and again A, B, C, D, while the tracked wallets remain A, B, C.
\<close>

theorem C5_removed_wallet_resubscribed:
  "trackedWallets (tracker_run (sample_tracker 100) race_session)
     = [wallet_A, wallet_B, wallet_C]
   \<and> subscriptions (websocketBackend (tracker_run (sample_tracker 100) race_session))
     = [wallet_A, wallet_B, wallet_C, wallet_D]
   \<and> pendingSubscriptions (websocketBackend (tracker_run (sample_tracker 100) race_session)) = []
   \<and> resubscribeLoops (websocketBackend (tracker_run (sample_tracker 100) race_session)) = []
   \<and> sentAddresses (effects (websocketBackend
        (tracker_run (sample_tracker 100) (race_session @ reconnect_session))))
     = [wallet_A, wallet_B, wallet_C, wallet_D, wallet_A, wallet_B, wallet_C, wallet_D]
   \<and> trackedWallets (tracker_run (sample_tracker 100) (race_session @ reconnect_session))
     = [wallet_A, wallet_B, wallet_C]"
  by code_simp

end
